theory Spec2Isabelle
  imports Complex_Main
begin

section \<open>Preliminaries: Python values and exceptions\<close>

text \<open>
  The development embeds the parameter loaders of \<^verbatim>\<open>flavio/parameters.py\<close> and the
  bag-parameter conversion of \<^verbatim>\<open>flavio/physics/mesonmixing/common.py\<close>.
  Python floats are modelled as the type \<^typ>\<open>real\<close> with exact arithmetic; rounding of
  IEEE doubles is outside the model. A raised exception is the \<open>Inl\<close> branch of a sum.
\<close>

datatype py_error =
    KeyError | ValueError | IndexError | AssertionError
  | UnboundLocalError | ZeroDivisionError | TypeError

text \<open>A Python number as produced by \<^verbatim>\<open>**\<close> on floats: a float or a complex.\<close>

datatype py_num = PyFloat real | PyComplex complex

text \<open>
  \<^verbatim>\<open>x ** y\<close> on floats. A zero base with a negative exponent raises; a negative
  base with a non-integral exponent gives the principal complex power.
\<close>

definition py_pow :: "real \<Rightarrow> real \<Rightarrow> py_error + py_num" where
  "py_pow x y =
     (if 0 < x then Inr (PyFloat (x powr y))
      else if x = 0 then
        (if y < 0 then Inl ZeroDivisionError
         else Inr (PyFloat (if y = 0 then 1 else 0)))
      else if y = of_int \<lfloor>y\<rfloor> then Inr (PyFloat (x powi \<lfloor>y\<rfloor>))
      else Inr (PyComplex (Complex ((\<bar>x\<bar> powr y) * cos (pi * y))
                                   ((\<bar>x\<bar> powr y) * sin (pi * y)))))"

text \<open>Multiplication of a Python number by a float.\<close>

fun py_mul :: "py_num \<Rightarrow> real \<Rightarrow> py_num" where
  "py_mul (PyFloat a) b = PyFloat (a * b)"
| "py_mul (PyComplex z) b = PyComplex (z * of_real b)"

section \<open>Meson mixing: \<^verbatim>\<open>bag_msbar2rgi\<close>\<close>

text \<open>
  The local variables \<^verbatim>\<open>J\<close> and \<^verbatim>\<open>g\<close> after the \<^verbatim>\<open>if\<close>/\<^verbatim>\<open>elif\<close> chain.
  \<^verbatim>\<open>J\<close> starts as the empty dict and \<^verbatim>\<open>g\<close> starts unbound (\<open>None\<close>).
\<close>

datatype j_val = JDict | JFloat real

definition bag_locals :: "string \<Rightarrow> j_val \<times> real option" where
  "bag_locals meson =
     (if meson \<in> set [''B0'', ''Bs''] then (JFloat (5165 / 3174), Some (6 / 23))
      else if meson = ''K0'' then (JFloat (307 / 162), Some (2 / 9))
      else (JDict, None))"

text \<open>
  The return expression \<^verbatim>\<open>alpha_s**(-g) * (1 + alpha_s/(4*pi) * J)\<close>, evaluated left to
  right: the read of \<^verbatim>\<open>g\<close> comes first, then the power, then the factor with \<^verbatim>\<open>J\<close>.
\<close>

definition bag_msbar2rgi :: "real \<Rightarrow> string \<Rightarrow> py_error + py_num" where
  "bag_msbar2rgi alpha_s meson =
     (case bag_locals meson of (J, gopt) \<Rightarrow>
        (case gopt of
           None \<Rightarrow> Inl UnboundLocalError
         | Some g \<Rightarrow>
             (case py_pow alpha_s (- g) of
                Inl e \<Rightarrow> Inl e
              | Inr p \<Rightarrow>
                  (case J of
                     JDict \<Rightarrow> Inl TypeError
                   | JFloat j \<Rightarrow> Inr (py_mul p (1 + alpha_s / (4 * pi) * j))))))"

section \<open>The parameter registry and the constraints\<close>

text \<open>
  The classes \<^verbatim>\<open>Parameter\<close> and \<^verbatim>\<open>ParameterConstraints\<close> and the distribution classes
  live in \<^verbatim>\<open>flavio.classes\<close> and \<^verbatim>\<open>flavio.statistics.probability\<close>, outside the
  files embedded here. They are modelled from the specification of the repository.
\<close>

record parameter =
  description :: "string option"
  tex :: "string option"

type_synonym registry = "string \<rightharpoonup> parameter"

text \<open>
  Modelled from the spec: the constructor \<^verbatim>\<open>Parameter(name)\<close> of \<^verbatim>\<open>flavio.classes\<close>.
  It returns the existing instance if the name is registered, and otherwise registers a
  new one with empty metadata; it never fails.
\<close>

definition Parameter_new :: "registry \<Rightarrow> string \<Rightarrow> registry" where
  "Parameter_new reg name =
     (case reg name of
        Some p \<Rightarrow> reg
      | None \<Rightarrow> reg(name \<mapsto> \<lparr>description = None, tex = None\<rparr>))"

text \<open>
  Modelled from the spec: the lookup \<^verbatim>\<open>Parameter[name]\<close> of \<^verbatim>\<open>flavio.classes\<close>, which
  fails (a \<^verbatim>\<open>KeyError\<close>, the exception the PDG loader catches) for an unregistered name.
\<close>

definition Parameter_get :: "registry \<Rightarrow> string \<Rightarrow> py_error + parameter" where
  "Parameter_get reg name = (case reg name of None \<Rightarrow> Inl KeyError | Some p \<Rightarrow> Inr p)"

definition set_tex :: "registry \<Rightarrow> string \<Rightarrow> string \<Rightarrow> registry" where
  "set_tex reg name t = (case reg name of None \<Rightarrow> reg | Some p \<Rightarrow> reg(name \<mapsto> p\<lparr>tex := Some t\<rparr>))"

definition set_description :: "registry \<Rightarrow> string \<Rightarrow> string \<Rightarrow> registry" where
  "set_description reg name d =
     (case reg name of None \<Rightarrow> reg | Some p \<Rightarrow> reg(name \<mapsto> p\<lparr>description := Some d\<rparr>))"

type_synonym matrix = "real list list"

text \<open>The constructor calls of the distribution classes, with their arguments.\<close>

datatype distribution =
    NormalDistribution real real
  | AsymmetricNormalDistribution real (right_deviation: real) (left_deviation: real)
  | MultivariateNormalDistribution "real list" matrix

text \<open>
  A \<^verbatim>\<open>ParameterConstraints\<close> instance: the constraint groups in the order they were
  added, each an ordered list of parameter names with its distribution.
\<close>

type_synonym constraints = "(string list \<times> distribution) list"

definition constrained :: "constraints \<Rightarrow> string \<Rightarrow> bool" where
  "constrained c name = (\<exists>g \<in> set c. name \<in> set (fst g))"

definition constraint_of :: "constraints \<Rightarrow> string \<Rightarrow> (string list \<times> distribution) option" where
  "constraint_of c name = find (\<lambda>g. name \<in> set (fst g)) c"

text \<open>
  What the loaders take from their environment: code of the repository outside the
  embedded files, and NumPy.
  \<^item> \<open>errors_from_string\<close>: the parser of \<^verbatim>\<open>flavio._parse_errors\<close>;
  \<^item> \<open>fix_correlation_matrix\<close>: \<^verbatim>\<open>_fix_correlation_matrix\<close> of \<^verbatim>\<open>flavio.measurements\<close>;
  \<^item> \<open>eig_positive\<close>: the test \<^verbatim>\<open>np.all(np.linalg.eigvals(M) > 0)\<close>;
  \<^item> \<open>validate\<close>: the checks of a distribution's constructor (\<open>None\<close>: accepted);
  \<^item> \<open>on_conflict\<close>: what \<^verbatim>\<open>add_constraint\<close> does when a name is already constrained,
    which the specification leaves open;
  \<^item> \<open>set_constraint\<close>: \<^verbatim>\<open>ParameterConstraints.set_constraint\<close>;
  \<^item> \<open>to_tex\<close>: the helper \<^verbatim>\<open>_pdg_particle_string_to_tex\<close>, which only feeds metadata.
\<close>

record error_dict =
  central_value :: real
  symmetric_errors :: "real list"
  asymmetric_errors :: "(real \<times> real) list"

record 'corr env =
  errors_from_string :: "string \<Rightarrow> py_error + error_dict"
  fix_correlation_matrix :: "'corr \<Rightarrow> nat \<Rightarrow> py_error + matrix"
  eig_positive :: "matrix \<Rightarrow> bool"
  validate :: "distribution \<Rightarrow> py_error option"
  on_conflict :: "constraints \<Rightarrow> string list \<Rightarrow> distribution \<Rightarrow> py_error + constraints"
  set_constraint :: "constraints \<Rightarrow> string \<Rightarrow> string \<Rightarrow> py_error + constraints"
  to_tex :: "string \<Rightarrow> string"

text \<open>
  Modelled from the spec: \<^verbatim>\<open>ParameterConstraints.add_constraint\<close>, with the distribution
  constructed first. Without a conflict the group is appended, all of it or nothing.
\<close>

definition add_constraint ::
  "'corr env \<Rightarrow> constraints \<Rightarrow> string list \<Rightarrow> distribution \<Rightarrow> py_error + constraints" where
  "add_constraint env c names d =
     (case validate env d of
        Some e \<Rightarrow> Inl e
      | None \<Rightarrow>
          if \<exists>n \<in> set names. constrained c n then on_conflict env c names d
          else Inr (c @ [(names, d)]))"

text \<open>
  Modelled from the spec: \<^verbatim>\<open>ParameterConstraints.remove_constraint\<close>. It removes the
  whole group containing the name and fails with the not-found error when there is none.
\<close>

definition remove_constraint :: "constraints \<Rightarrow> string \<Rightarrow> py_error + constraints" where
  "remove_constraint c name =
     (if constrained c name then Inr (filter (\<lambda>g. name \<notin> set (fst g)) c)
      else Inl KeyError)"

section \<open>The YAML loaders\<close>

text \<open>
  A loader mutates the registry and the constraints in place, so an exception leaves
  the state as it was when raised: a loader returns the state and the exception, if any.
\<close>

type_synonym 's outcome = "'s \<times> py_error option"

subsection \<open>\<^verbatim>\<open>_read_yaml_object_metadata\<close>\<close>

text \<open>
  The YAML document is a mapping from names to \<^verbatim>\<open>info\<close>; an \<^verbatim>\<open>info\<close> is \<open>None\<close> for a
  YAML null (on which \<^verbatim>\<open>in\<close> raises) or a mapping whose values may be null.
\<close>

type_synonym info = "(string \<rightharpoonup> string option) option"

definition metadata_entry :: "registry \<Rightarrow> string \<Rightarrow> info \<Rightarrow> registry outcome" where
  "metadata_entry reg parameter_name info =
     (let reg1 = Parameter_new reg parameter_name in
      case info of
        None \<Rightarrow> (reg1, Some TypeError)
      | Some d \<Rightarrow>
          (let reg2 = (case d ''description'' of
                         Some (Some s) \<Rightarrow> set_description reg1 parameter_name s
                       | _ \<Rightarrow> reg1);
               reg3 = (case d ''tex'' of
                         Some (Some s) \<Rightarrow> set_tex reg2 parameter_name s
                       | _ \<Rightarrow> reg2)
           in (reg3, None)))"

fun read_yaml_object_metadata ::
  "(string \<times> info) list \<Rightarrow> registry \<times> constraints \<Rightarrow> (registry \<times> constraints) outcome" where
  "read_yaml_object_metadata [] (reg, constraints) = ((reg, constraints), None)"
| "read_yaml_object_metadata ((parameter_name, info) # rest) (reg, constraints) =
     (case metadata_entry reg parameter_name info of
        (reg', Some e) \<Rightarrow> ((reg', constraints), Some e)
      | (reg', None) \<Rightarrow> read_yaml_object_metadata rest (reg', constraints))"

subsection \<open>\<^verbatim>\<open>_read_yaml_object_values\<close>\<close>

fun read_yaml_object_values ::
  "'corr env \<Rightarrow> registry \<Rightarrow> (string \<times> string) list \<Rightarrow> constraints \<Rightarrow> constraints outcome" where
  "read_yaml_object_values env reg [] constraints = (constraints, None)"
| "read_yaml_object_values env reg ((parameter_name, v) # rest) constraints =
     (case Parameter_get reg parameter_name of
        Inl e \<Rightarrow> (constraints, Some e)
      | Inr p \<Rightarrow>
          (case set_constraint env constraints parameter_name v of
             Inl e \<Rightarrow> (constraints, Some e)
           | Inr constraints' \<Rightarrow> read_yaml_object_values env reg rest constraints'))"

subsection \<open>\<^verbatim>\<open>_read_yaml_object_values_correlated\<close>\<close>

text \<open>\<^verbatim>\<open>math.sqrt\<close> raises on a negative argument.\<close>

definition py_sqrt :: "real \<Rightarrow> py_error + real" where
  "py_sqrt x = (if x < 0 then Inl ValueError else Inr (sqrt x))"

text \<open>The two accumulation loops over the error components (lines 53 to 57).\<close>

fun add_symmetric :: "real \<Rightarrow> real list \<Rightarrow> real" where
  "add_symmetric squared_error [] = squared_error"
| "add_symmetric squared_error (sym_err # rest) =
     add_symmetric (squared_error + sym_err ^ 2) rest"

fun add_asymmetric :: "real \<Rightarrow> (real \<times> real) list \<Rightarrow> real" where
  "add_asymmetric squared_error [] = squared_error"
| "add_asymmetric squared_error (asym_err # rest) =
     add_asymmetric (squared_error + fst asym_err * snd asym_err) rest"

definition squared_error_of :: "error_dict \<Rightarrow> real" where
  "squared_error_of ed =
     add_asymmetric (add_symmetric 0 (symmetric_errors ed)) (asymmetric_errors ed)"

definition combined_error :: "error_dict \<Rightarrow> py_error + real" where
  "combined_error ed = py_sqrt (squared_error_of ed)"

text \<open>
  The loop over \<^verbatim>\<open>parameter_group['values']\<close>. Each element is a mapping of which
  the first item is taken; the three lists grow by \<^verbatim>\<open>append\<close>.
\<close>

fun read_group_values ::
  "'corr env \<Rightarrow> registry \<Rightarrow> (string \<times> string) list list
     \<Rightarrow> string list \<times> real list \<times> real list
     \<Rightarrow> py_error + (string list \<times> real list \<times> real list)" where
  "read_group_values env reg [] acc = Inr acc"
| "read_group_values env reg (dict_list # rest) (parameter_names, central_values, errors) =
     (case dict_list of
        [] \<Rightarrow> Inl IndexError
      | (parameter_name, v) # _ \<Rightarrow>
          (case Parameter_get reg parameter_name of
             Inl e \<Rightarrow> Inl e
           | Inr p \<Rightarrow>
               (case errors_from_string env v of
                  Inl e \<Rightarrow> Inl e
                | Inr ed \<Rightarrow>
                    (case combined_error ed of
                       Inl e \<Rightarrow> Inl e
                     | Inr err \<Rightarrow>
                         read_group_values env reg rest
                           (parameter_names @ [parameter_name],
                            central_values @ [central_value ed],
                            errors @ [err])))))"

text \<open>
  NumPy on two-dimensional arrays. The element-wise operations are modelled on
  arrays of equal shape and raise otherwise (broadcasting of other shapes is outside
  the model: \<^verbatim>\<open>_fix_correlation_matrix\<close> is called to return an \<open>n \<times> n\<close> array).
\<close>

definition outer :: "real list \<Rightarrow> real list \<Rightarrow> matrix" where
  "outer a b = map (\<lambda>x. map (\<lambda>y. x * y) b) a"

definition eye :: "nat \<Rightarrow> matrix" where
  "eye n = map (\<lambda>i. map (\<lambda>j. if i = j then 1 else 0) [0..<n]) [0..<n]"

definition same_shape :: "matrix \<Rightarrow> matrix \<Rightarrow> bool" where
  "same_shape A B = (map length A = map length B)"

definition elementwise :: "(real \<Rightarrow> real \<Rightarrow> real) \<Rightarrow> matrix \<Rightarrow> matrix \<Rightarrow> py_error + matrix" where
  "elementwise f A B =
     (if same_shape A B then Inr (map2 (\<lambda>r s. map2 f r s) A B) else Inl ValueError)"

definition scale :: "matrix \<Rightarrow> real \<Rightarrow> matrix" where
  "scale A k = map (map (\<lambda>x. x * k)) A"

text \<open>Line 60 and line 66: \<^verbatim>\<open>np.outer(errors, errors)*correlation\<close>.\<close>

definition covariance :: "real list \<Rightarrow> matrix \<Rightarrow> py_error + matrix" where
  "covariance errors correlation = elementwise (*) (outer errors errors) correlation"

text \<open>Lines 64 and 65: \<^verbatim>\<open>(correlation - np.eye(n_dim))*0.99 + np.eye(n_dim)\<close>.\<close>

definition damp :: "matrix \<Rightarrow> py_error + matrix" where
  "damp correlation =
     (let n_dim = length correlation in
      case elementwise (-) correlation (eye n_dim) of
        Inl e \<Rightarrow> Inl e
      | Inr d \<Rightarrow> elementwise (+) (scale d (99 / 100)) (eye n_dim))"

text \<open>Lines 60 to 68: the covariance, its check, one damping pass, the assertion.\<close>

definition checked_covariance ::
  "(matrix \<Rightarrow> bool) \<Rightarrow> real list \<Rightarrow> matrix \<Rightarrow> py_error + matrix" where
  "checked_covariance eig_pos errors correlation =
     (case covariance errors correlation of
        Inl e \<Rightarrow> Inl e
      | Inr cov \<Rightarrow>
          if eig_pos cov then Inr cov
          else
            (case damp correlation of
               Inl e \<Rightarrow> Inl e
             | Inr correlation' \<Rightarrow>
                 (case covariance errors correlation' of
                    Inl e \<Rightarrow> Inl e
                  | Inr cov' \<Rightarrow> if eig_pos cov' then Inr cov' else Inl AssertionError)))"

record 'corr parameter_group =
  group_values :: "(string \<times> string) list list"
  correlation :: 'corr

definition read_group ::
  "'corr env \<Rightarrow> registry \<Rightarrow> 'corr parameter_group \<Rightarrow> constraints \<Rightarrow> py_error + constraints" where
  "read_group env reg parameter_group constraints =
     (case read_group_values env reg (group_values parameter_group) ([], [], []) of
        Inl e \<Rightarrow> Inl e
      | Inr (parameter_names, central_values, errors) \<Rightarrow>
          (case fix_correlation_matrix env (correlation parameter_group) (length parameter_names) of
             Inl e \<Rightarrow> Inl e
           | Inr corr \<Rightarrow>
               (case checked_covariance (eig_positive env) errors corr of
                  Inl e \<Rightarrow> Inl e
                | Inr cov \<Rightarrow>
                    add_constraint env constraints parameter_names
                      (MultivariateNormalDistribution central_values cov))))"

fun read_yaml_object_values_correlated ::
  "'corr env \<Rightarrow> registry \<Rightarrow> 'corr parameter_group list \<Rightarrow> constraints \<Rightarrow> constraints outcome" where
  "read_yaml_object_values_correlated env reg [] constraints = (constraints, None)"
| "read_yaml_object_values_correlated env reg (parameter_group # rest) constraints =
     (case read_group env reg parameter_group constraints of
        Inl e \<Rightarrow> (constraints, Some e)
      | Inr constraints' \<Rightarrow> read_yaml_object_values_correlated env reg rest constraints')"

text \<open>An \<open>n \<times> n\<close> array.\<close>

definition square :: "nat \<Rightarrow> matrix \<Rightarrow> bool" where
  "square n A = (length A = n \<and> list_all (\<lambda>r. length r = n) A)"

section \<open>An example environment\<close>

text \<open>
  A small concrete environment on which the theorems below are exercised: a parser
  that knows two error strings, correlations given as full matrices, and the
  eigenvalue test of a symmetric \<open>2 \<times> 2\<close> matrix (positive trace and determinant).
\<close>

definition eig_positive_2x2 :: "matrix \<Rightarrow> bool" where
  "eig_positive_2x2 M =
     (case M of [[a, b], [c, d]] \<Rightarrow> 0 < a + d \<and> 0 < a * d - b * c | _ \<Rightarrow> False)"

definition example_errors_from_string :: "string \<Rightarrow> py_error + error_dict" where
  "example_errors_from_string v =
     (if v = ''1.0 +- 0.3 +0.8 -0.2'' then
        Inr \<lparr>central_value = 1, symmetric_errors = [3 / 10], asymmetric_errors = [(8 / 10, 2 / 10)]\<rparr>
      else if v = ''2.0 +- 0.2'' then
        Inr \<lparr>central_value = 2, symmetric_errors = [2 / 10], asymmetric_errors = []\<rparr>
      else if v = ''1.0 +- 0.1'' then
        Inr \<lparr>central_value = 1, symmetric_errors = [1 / 10], asymmetric_errors = []\<rparr>
      else Inl ValueError)"

definition example_env :: "matrix env" where
  "example_env =
     \<lparr>errors_from_string = example_errors_from_string,
      fix_correlation_matrix = (\<lambda>corr n. Inr corr),
      eig_positive = eig_positive_2x2,
      validate = (\<lambda>d. None),
      on_conflict = (\<lambda>c names d. Inl ValueError),
      set_constraint = (\<lambda>c name v.
         case example_errors_from_string v of
           Inl e \<Rightarrow> Inl e
         | Inr ed \<Rightarrow> Inr (c @ [([name], NormalDistribution (central_value ed) 0)])),
      to_tex = (\<lambda>s. s)\<rparr>"

definition example_registry :: registry where
  "example_registry =
     [''a'' \<mapsto> \<lparr>description = None, tex = None\<rparr>, ''b'' \<mapsto> \<lparr>description = None, tex = None\<rparr>]"

definition example_group :: "matrix parameter_group" where
  "example_group =
     \<lparr>group_values = [[(''a'', ''1.0 +- 0.3 +0.8 -0.2'')], [(''b'', ''2.0 +- 0.2'')]],
      correlation = [[1, 1], [1, 1]]\<rparr>"

text \<open>Two parameters with errors 0.1 and 0.2 and correlation 0.9.\<close>

definition example_correlated_group :: "matrix parameter_group" where
  "example_correlated_group =
     \<lparr>group_values = [[(''a'', ''1.0 +- 0.1'')], [(''b'', ''2.0 +- 0.2'')]],
      correlation = [[1, 9 / 10], [9 / 10, 1]]\<rparr>"

definition example_metadata :: "(string \<times> info) list" where
  "example_metadata = [(''m_x'', Some [''description'' \<mapsto> Some ''test mass''])]"

definition example_bad_group :: "matrix parameter_group" where
  "example_bad_group =
     \<lparr>group_values = [[(''a'', ''2.0 +- 0.2'')], [(''zz'', ''2.0 +- 0.2'')]],
      correlation = [[1, 0], [0, 1]]\<rparr>"

section \<open>The PDG mass and width table\<close>

subsection \<open>Python string operations\<close>

text \<open>
  A line of the table is a \<^typ>\<open>string\<close> whose characters are code points below 256
  (the table is ASCII). \<^verbatim>\<open>str.isspace\<close> on that range.
\<close>

definition py_isspace :: "char \<Rightarrow> bool" where
  "py_isspace c = ((of_char c :: nat) \<in> {9, 10, 11, 12, 13, 28, 29, 30, 31, 32, 133, 160})"

definition strip :: "string \<Rightarrow> string" where
  "strip s = rev (dropWhile py_isspace (rev (dropWhile py_isspace s)))"

text \<open>\<^verbatim>\<open>s[a:b]\<close> for non-negative bounds: out-of-range bounds are clipped.\<close>

definition slice :: "nat \<Rightarrow> nat \<Rightarrow> string \<Rightarrow> string" where
  "slice a b s = take (b - a) (drop a s)"

text \<open>\<^verbatim>\<open>s.split()\<close>: the maximal runs of non-whitespace; \<open>cur\<close> is the run being read.\<close>

fun split_ws :: "string \<Rightarrow> string \<Rightarrow> string list" where
  "split_ws cur [] = (if cur = [] then [] else [cur])"
| "split_ws cur (c # cs) =
     (if py_isspace c then (if cur = [] then split_ws [] cs else cur # split_ws [] cs)
      else split_ws (cur @ [c]) cs)"

definition py_split :: "string \<Rightarrow> string list" where
  "py_split s = split_ws [] s"

text \<open>\<^verbatim>\<open>s.split(sep)\<close> for a one-character separator: empty fields are kept.\<close>

fun split_sep :: "char \<Rightarrow> string \<Rightarrow> string \<Rightarrow> string list" where
  "split_sep sep cur [] = [cur]"
| "split_sep sep cur (c # cs) =
     (if c = sep then cur # split_sep sep [] cs else split_sep sep (cur @ [c]) cs)"

definition py_split_on :: "char \<Rightarrow> string \<Rightarrow> string list" where
  "py_split_on sep s = split_sep sep [] s"

text \<open>
  A Python dict keeps insertion order: assigning to an existing key replaces the value
  in place, assigning to a new key appends.
\<close>

fun dict_set :: "'k \<Rightarrow> 'v \<Rightarrow> ('k \<times> 'v) list \<Rightarrow> ('k \<times> 'v) list" where
  "dict_set k v [] = [(k, v)]"
| "dict_set k v (p # ps) = (if fst p = k then (k, v) # ps else p # dict_set k v ps)"

definition dict_update :: "('k \<times> 'v) list \<Rightarrow> ('k \<times> 'v) list \<Rightarrow> ('k \<times> 'v) list" where
  "dict_update d items = foldl (\<lambda>acc kv. dict_set (fst kv) (snd kv) acc) d items"

subsection \<open>\<^verbatim>\<open>_read_pdg_masswidth\<close>\<close>

record particle =
  pdg_id :: string
  pdg_mass :: "real \<times> real \<times> real"
  pdg_charge :: string
  pdg_width :: "real \<times> real \<times> real"
  pdg_name :: string

text \<open>
  \<^verbatim>\<open>[float(m) for m in ...]\<close> on three fields, left to right. The builtin \<^verbatim>\<open>float\<close> is
  a parameter: \<open>None\<close> where it raises \<^verbatim>\<open>ValueError\<close>.
\<close>

definition floats3 ::
  "(string \<Rightarrow> real option) \<Rightarrow> string \<times> string \<times> string \<Rightarrow> py_error + (real \<times> real \<times> real)" where
  "floats3 float_of t =
     (case t of (a, b, c) \<Rightarrow>
        (case float_of a of None \<Rightarrow> Inl ValueError | Some x \<Rightarrow>
        (case float_of b of None \<Rightarrow> Inl ValueError | Some y \<Rightarrow>
        (case float_of c of None \<Rightarrow> Inl ValueError | Some z \<Rightarrow> Inr (x, y, z)))))"

text \<open>
  Lines 154 to 174 for one data row: the entries it produces, each with the particle
  name and the charge under which it is stored.
\<close>

definition parse_row ::
  "(string \<Rightarrow> real option) \<Rightarrow> string \<Rightarrow> py_error + (string \<times> string \<times> particle) list" where
  "parse_row float_of line =
     (case floats3 float_of (slice 33 51 line, slice 52 60 line, slice 61 69 line) of
        Inl e \<Rightarrow> Inl e
      | Inr mass \<Rightarrow>
          (case (if strip (slice 70 88 line) = [] then Inr (0, 0, 0)
                 else floats3 float_of (slice 70 88 line, slice 89 97 line, slice 98 106 line)) of
             Inl e \<Rightarrow> Inl e
           | Inr width \<Rightarrow>
               (let ids = py_split (slice 0 32 line) in
                case py_split (slice 107 128 line) of
                  particle_name # charge_list # _ \<Rightarrow>
                    (let charges = py_split_on (CHR '','') charge_list in
                     if length ids \<noteq> length charges then Inl ValueError
                     else Inr (map (\<lambda>(pid, ch).
                            (let particle_charge = strip ch in
                             (particle_name, particle_charge,
                              \<lparr>pdg_id = strip pid, pdg_mass = mass, pdg_charge = particle_charge,
                               pdg_width = width, pdg_name = particle_name\<rparr>)))
                          (zip ids charges)))
                | _ \<Rightarrow> Inl IndexError)))"

type_synonym particles_by_name = "(string \<times> (string \<times> particle) list) list"

text \<open>Lines 175 to 178: merge one entry into \<^verbatim>\<open>particles_by_name\<close>.\<close>

definition add_entry :: "particles_by_name \<Rightarrow> string \<times> string \<times> particle \<Rightarrow> particles_by_name" where
  "add_entry pbn entry =
     (case entry of (particle_name, particle_charge, p) \<Rightarrow>
        (case map_of pbn particle_name of
           Some inner \<Rightarrow> dict_set particle_name (dict_set particle_charge p inner) pbn
         | None \<Rightarrow> dict_set particle_name [(particle_charge, p)] pbn))"

text \<open>The loop over the lines (lines 151 to 178).\<close>

fun read_lines ::
  "(string \<Rightarrow> real option) \<Rightarrow> string list \<Rightarrow> particles_by_name \<Rightarrow> py_error + particles_by_name" where
  "read_lines float_of [] pbn = Inr pbn"
| "read_lines float_of (line # rest) pbn =
     (case strip line of
        [] \<Rightarrow> Inl IndexError
      | c # _ \<Rightarrow>
          if c = CHR ''*'' then read_lines float_of rest pbn
          else
            (case parse_row float_of line of
               Inl e \<Rightarrow> Inl e
             | Inr entries \<Rightarrow> read_lines float_of rest (foldl add_entry pbn entries)))"

text \<open>Lines 179 and 180: the two dict comprehensions and the \<^verbatim>\<open>update\<close>.\<close>

definition multiplet_items :: "particles_by_name \<Rightarrow> (string \<times> particle) list" where
  "multiplet_items pbn =
     concat (map (\<lambda>(k, v). if length v > 1 then map (\<lambda>(kk, vv). (k @ kk, vv)) v else []) pbn)"

definition singlet_items :: "particles_by_name \<Rightarrow> (string \<times> particle) list" where
  "singlet_items pbn =
     concat (map (\<lambda>(k, v). if length v = 1 then [(k, snd (hd v))] else []) pbn)"

definition masswidth_result :: "particles_by_name \<Rightarrow> (string \<times> particle) list" where
  "masswidth_result pbn =
     dict_update (dict_update [] (multiplet_items pbn)) (dict_update [] (singlet_items pbn))"

definition read_pdg_masswidth ::
  "(string \<Rightarrow> real option) \<Rightarrow> string list \<Rightarrow> py_error + (string \<times> particle) list" where
  "read_pdg_masswidth float_of lines =
     (case read_lines float_of lines [] of
        Inl e \<Rightarrow> Inl e
      | Inr pbn \<Rightarrow> Inr (masswidth_result pbn))"

subsection \<open>\<^verbatim>\<open>read_pdg\<close>\<close>

definition pdg_include :: "string list" where
  "pdg_include =
     [''B(s)'', ''B(c)'', ''B(s)*'', ''B*+'', ''B*0'', ''B+'', ''B0'', ''D(s)'', ''D(s)*'', ''D+'', ''D0'',
      ''H'', ''J/psi(1S)'', ''K(L)'', ''K(S)'', ''K*(892)+'', ''K*(892)0'', ''K+'', ''K0'',
      ''Lambda'', ''Lambda(b)'', ''Lambda(c)'', ''omega(782)'', ''D*(2007)'', ''D*(2010)'',
      ''W'', ''Z'', ''b'', ''c'', ''d'', ''e'', ''eta'', ''f(0)(980)'',
      ''mu'', ''phi(1020)'', ''pi+'', ''pi0'', ''psi(2S)'', ''rho(770)+'', ''rho(770)0'',
      ''s'', ''t'', ''tau'', ''u'']"

definition pdg_translate :: "(string \<times> string) list" where
  "pdg_translate =
     [(''B(s)'', ''Bs''),
      (''B(c)'', ''Bc''),
      (''D(s)'', ''Ds''),
      (''B(s)*'', ''Bs*''),
      (''D(s)*'', ''Ds*''),
      (''D*(2007)'', ''D*0''),
      (''D*(2010)'', ''D*+''),
      (''J/psi(1S)'', ''J/psi''),
      (''K(L)'', ''KL''),
      (''K(S)'', ''KS''),
      (''K*(892)+'', ''K*+''),
      (''K*(892)0'', ''K*0''),
      (''phi(1020)'', ''phi''),
      (''rho(770)0'', ''rho0''),
      (''rho(770)+'', ''rho+''),
      (''f(0)(980)'', ''f0''),
      (''eta'(958)'', ''eta'' @ [CHR 0x27]),
      (''omega(782)'', ''omega''),
      (''Lambda(b)'', ''Lambdab''),
      (''Lambda(c)'', ''Lambdac''),
      (''Higgs'', ''h''),
      (''H'', ''h'')]"

text \<open>\<^verbatim>\<open>pdg_translate.get(particle, particle)\<close>.\<close>

definition translated :: "string \<Rightarrow> string" where
  "translated particle = (case map_of pdg_translate particle of Some t \<Rightarrow> t | None \<Rightarrow> particle)"

text \<open>
  The \<^verbatim>\<open>try\<close>/\<^verbatim>\<open>except KeyError\<close> block (lines 207 to 213 and 239 to 245): look the
  parameter up and remove its constraint; on a \<^verbatim>\<open>KeyError\<close> from either, create it.
\<close>

definition lookup_or_create ::
  "registry \<Rightarrow> constraints \<Rightarrow> string \<Rightarrow> py_error + (registry \<times> constraints)" where
  "lookup_or_create reg c parameter_name =
     (case Parameter_get reg parameter_name of
        Inl e \<Rightarrow> if e = KeyError then Inr (Parameter_new reg parameter_name, c) else Inl e
      | Inr m \<Rightarrow>
          (case remove_constraint c parameter_name of
             Inl e \<Rightarrow> if e = KeyError then Inr (Parameter_new reg parameter_name, c) else Inl e
           | Inr c' \<Rightarrow> Inr (reg, c')))"

definition bs :: string where
  "bs = [CHR 0x5C]"

text \<open>Lines 214 to 224: the label and the description of a mass parameter.\<close>

definition mass_metadata :: "registry \<Rightarrow> string \<Rightarrow> string \<Rightarrow> registry" where
  "mass_metadata reg parameter_name tex_name =
     (let reg1 = set_tex reg parameter_name (''$m_{'' @ tex_name @ ''}$'') in
      if tex_name = ''b'' \<or> tex_name = ''c'' then
        set_description
          (set_tex reg1 parameter_name (''$m_{'' @ tex_name @ ''}(m_{'' @ tex_name @ ''})$''))
          parameter_name
          (''$'' @ tex_name @ ''$ quark mass in the $'' @ bs @ ''overline{'' @ bs
             @ ''text{MS}}$ scheme at the scale $m_'' @ tex_name @ ''$'')
      else if tex_name = ''s'' \<or> tex_name = ''u'' \<or> tex_name = ''d'' then
        set_description
          (set_tex reg1 parameter_name
             (''$m_{'' @ tex_name @ ''}(2'' @ bs @ '','' @ bs @ ''text{GeV})$''))
          parameter_name
          (''$'' @ tex_name @ ''$ quark mass in the $'' @ bs @ ''overline{'' @ bs
             @ ''text{MS}}$ scheme at 2 GeV'')
      else if tex_name = ''t'' then
        set_description reg1 parameter_name (''$'' @ tex_name @ ''$ quark pole mass'')
      else
        set_description reg1 parameter_name (''$'' @ tex_name @ ''$ mass''))"

text \<open>Lines 225 to 233: the distribution of the mass.\<close>

definition mass_distribution :: "real \<times> real \<times> real \<Rightarrow> distribution" where
  "mass_distribution mass =
     (case mass of (m_central, m_right, m_left0) \<Rightarrow>
        (let m_left = \<bar>m_left0\<bar> in
         if m_right = m_left then NormalDistribution m_central m_right
         else AsymmetricNormalDistribution m_central m_right m_left))"

text \<open>True division of floats.\<close>

definition py_div :: "real \<Rightarrow> real \<Rightarrow> py_error + real" where
  "py_div a b = (if b = 0 then Inl ZeroDivisionError else Inr (a / b))"

text \<open>Lines 236, 237 and 248 to 257: the distribution of the lifetime.\<close>

definition lifetime_distribution :: "real \<times> real \<times> real \<Rightarrow> py_error + distribution" where
  "lifetime_distribution width =
     (case width of (G_central, G_right, G_left0) \<Rightarrow>
        (let G_left = \<bar>G_left0\<bar> in
         case py_div 1 G_central of
           Inl e \<Rightarrow> Inl e
         | Inr tau_central \<Rightarrow>
             (case py_div G_left (G_central ^ 2) of
                Inl e \<Rightarrow> Inl e
              | Inr tau_left \<Rightarrow>
                  (case py_div G_right (G_central ^ 2) of
                     Inl e \<Rightarrow> Inl e
                   | Inr tau_right \<Rightarrow>
                       Inr (if tau_left = tau_right then NormalDistribution tau_central tau_right
                            else AsymmetricNormalDistribution tau_central tau_right tau_left)))))"

type_synonym state = "registry \<times> constraints"

text \<open>Lines 205 to 233 of the loop body: the mass parameter and its constraint.\<close>

definition mass_step ::
  "'corr env \<Rightarrow> (string \<times> particle) list \<Rightarrow> string \<Rightarrow> state \<Rightarrow> state outcome" where
  "mass_step env particles particle s =
     (case s of (reg, c) \<Rightarrow>
       (let parameter_name = ''m_'' @ translated particle;
            tex_name = to_tex env particle in
        case lookup_or_create reg c parameter_name of
          Inl e \<Rightarrow> ((reg, c), Some e)
        | Inr (reg1, c1) \<Rightarrow>
            (let reg2 = mass_metadata reg1 parameter_name tex_name in
             case map_of particles particle of
               None \<Rightarrow> ((reg2, c1), Some KeyError)
             | Some p \<Rightarrow>
                 (case add_constraint env c1 [parameter_name] (mass_distribution (pdg_mass p)) of
                    Inl e \<Rightarrow> ((reg2, c1), Some e)
                  | Inr c2 \<Rightarrow> ((reg2, c2), None)))))"

text \<open>Lines 236 to 257 of the loop body: the lifetime parameter and its constraint.\<close>

definition lifetime_step :: "'corr env \<Rightarrow> particle \<Rightarrow> string \<Rightarrow> state \<Rightarrow> state outcome" where
  "lifetime_step env p particle s =
     (case s of (reg, c) \<Rightarrow>
       (let parameter_name = ''tau_'' @ translated particle;
            tex_name = to_tex env particle in
        case lookup_or_create reg c parameter_name of
          Inl e \<Rightarrow> ((reg, c), Some e)
        | Inr (reg1, c1) \<Rightarrow>
            (let reg2 = set_description
                          (set_tex reg1 parameter_name (''$'' @ bs @ ''tau_{'' @ tex_name @ ''}$''))
                          parameter_name (''$'' @ tex_name @ ''$ lifetime'') in
             case lifetime_distribution (pdg_width p) of
               Inl e \<Rightarrow> ((reg2, c1), Some e)
             | Inr d \<Rightarrow>
                 (case add_constraint env c1 [parameter_name] d of
                    Inl e \<Rightarrow> ((reg2, c1), Some e)
                  | Inr c2 \<Rightarrow> ((reg2, c2), None)))))"

text \<open>The loop body for one particle; line 234 skips the lifetime for a zero width.\<close>

definition read_pdg_particle ::
  "'corr env \<Rightarrow> (string \<times> particle) list \<Rightarrow> string \<Rightarrow> state \<Rightarrow> state outcome" where
  "read_pdg_particle env particles particle s =
     (case mass_step env particles particle s of
        (s1, Some e) \<Rightarrow> (s1, Some e)
      | (s1, None) \<Rightarrow>
          (case map_of particles particle of
             None \<Rightarrow> (s1, Some KeyError)
           | Some p \<Rightarrow>
               if fst (pdg_width p) = 0 then (s1, None)
               else lifetime_step env p particle s1))"

fun read_pdg_loop ::
  "'corr env \<Rightarrow> (string \<times> particle) list \<Rightarrow> string list \<Rightarrow> state \<Rightarrow> state outcome" where
  "read_pdg_loop env particles [] s = (s, None)"
| "read_pdg_loop env particles (particle # rest) s =
     (case read_pdg_particle env particles particle s of
        (s1, Some e) \<Rightarrow> (s1, Some e)
      | (s1, None) \<Rightarrow> read_pdg_loop env particles rest s1)"

text \<open>
  \<^verbatim>\<open>read_pdg\<close>, from the lines of the data file of the year: the table is parsed
  first, then the particles of \<^verbatim>\<open>pdg_include\<close> are installed in order.
\<close>

definition read_pdg ::
  "'corr env \<Rightarrow> (string \<Rightarrow> real option) \<Rightarrow> string list \<Rightarrow> state \<Rightarrow> state outcome" where
  "read_pdg env float_of lines s =
     (case read_pdg_masswidth float_of lines of
        Inl e \<Rightarrow> (s, Some e)
      | Inr particles \<Rightarrow> read_pdg_loop env particles pdg_include s)"

section \<open>An example table\<close>

text \<open>Four lines in the layout of the table, a parser for the numbers they hold, and a registry with constraints.\<close>

definition example_float_of :: "string \<Rightarrow> real option" where
  "example_float_of s =
     (let t = strip s in
      if t = ''5.27963E+00'' then Some (527963 / 100000)
      else if t = ''+1.5E-04'' then Some (15 / 100000)
      else if t = ''-1.5E-04'' then Some (- 15 / 100000)
      else if t = ''5.32465E+00'' then Some (532465 / 100000)
      else if t = ''+2.5E-04'' then Some (25 / 100000)
      else if t = ''-2.5E-04'' then Some (- 25 / 100000)
      else if t = ''4.33E-13'' then Some (433 / 10 ^ 15)
      else if t = ''+1.1E-15'' then Some (11 / 10 ^ 16)
      else if t = ''-1.1E-15'' then Some (- 11 / 10 ^ 16)
      else None)"

definition example_row_B :: string where
  "example_row_B =
     ''     511                         5.27963E+00        +1.5E-04 -1.5E-04 4.33E-13           +1.1E-15 -1.1E-15 B                 0''"

definition example_row_Bstar :: string where
  "example_row_Bstar =
     ''     513     523                 5.32465E+00        +2.5E-04 -2.5E-04                                      B*                0,+''"

definition example_comment :: string where
  "example_comment = ''* MASS AND WIDTH TABLE''"

definition example_row_mismatch :: string where
  "example_row_mismatch =
     ''     513     523                 5.32465E+00        +2.5E-04 -2.5E-04                                      B*                0''"

definition example_particles :: "(string \<times> particle) list" where
  "example_particles =
     [(''B0'', \<lparr>pdg_id = ''511'', pdg_mass = (527963 / 100000, 15 / 100000, - 15 / 100000),
         pdg_charge = ''0'', pdg_width = (433 / 10 ^ 15, 11 / 10 ^ 16, - 11 / 10 ^ 16),
         pdg_name = ''B''\<rparr>),
      (''B*0'', \<lparr>pdg_id = ''513'', pdg_mass = (532465 / 100000, 25 / 100000, - 25 / 100000),
         pdg_charge = ''0'', pdg_width = (0, 0, 0), pdg_name = ''B*''\<rparr>)]"

definition example_state :: state where
  "example_state =
     ([''m_B0'' \<mapsto> \<lparr>description = None, tex = None\<rparr>],
      [([''m_B0''], NormalDistribution 5 1), ([''a''], NormalDistribution 0 1)])"



section \<open>Provenance of the parsed particles\<close>



section \<open>Notions for the PDG loader\<close>

text \<open>
  Vocabulary for the statements about \<^verbatim>\<open>read_pdg\<close>: the two parameter names of a
  particle (lines 205 and 238), the registry after the mass and the lifetime blocks, the
  constraints without the groups on a name, and the constraints in which the groups on
  a name are replaced by one new constraint. A state has \<open>registered_constraints\<close> when
  every constrained name is a registered parameter, which is what the value loaders
  leave behind. \<open>unchanged_at\<close> and \<open>particle_installed\<close> relate a state before and
  after a run of the loop.
\<close>

definition overwrite :: "constraints \<Rightarrow> string \<Rightarrow> distribution \<Rightarrow> constraints" where
  "overwrite c n d = filter (\<lambda>g. n \<notin> set (fst g)) c @ [([n], d)]"

definition registered_constraints :: "registry \<Rightarrow> constraints \<Rightarrow> bool" where
  "registered_constraints reg c = (\<forall>g \<in> set c. \<forall>n \<in> set (fst g). reg n \<noteq> None)"

definition mass_name :: "string \<Rightarrow> string" where
  "mass_name particle = ''m_'' @ translated particle"

definition lifetime_name :: "string \<Rightarrow> string" where
  "lifetime_name particle = ''tau_'' @ translated particle"

definition mass_registry :: "'corr env \<Rightarrow> string \<Rightarrow> registry \<Rightarrow> registry" where
  "mass_registry env particle reg =
     mass_metadata (Parameter_new reg (mass_name particle)) (mass_name particle) (to_tex env particle)"

definition lifetime_registry :: "'corr env \<Rightarrow> string \<Rightarrow> registry \<Rightarrow> registry" where
  "lifetime_registry env particle reg =
     set_description
       (set_tex (Parameter_new reg (lifetime_name particle)) (lifetime_name particle)
          (''$'' @ bs @ ''tau_{'' @ to_tex env particle @ ''}$''))
       (lifetime_name particle) (''$'' @ to_tex env particle @ ''$ lifetime'')"

definition removed :: "string \<Rightarrow> constraints \<Rightarrow> constraints" where
  "removed n c = filter (\<lambda>g. n \<notin> set (fst g)) c"

definition unchanged_at ::
  "registry \<Rightarrow> constraints \<Rightarrow> registry \<Rightarrow> constraints \<Rightarrow> string \<Rightarrow> bool" where
  "unchanged_at reg c reg' c' n =
     (reg' n = reg n \<and> (constrained c' n \<longrightarrow> constrained c n)
      \<and> (\<forall>d. constraint_of c n = Some ([n], d) \<longrightarrow> constraint_of c' n = Some ([n], d)))"

definition particle_installed ::
  "(string \<times> particle) list \<Rightarrow> registry \<Rightarrow> constraints \<Rightarrow> registry \<Rightarrow> constraints
     \<Rightarrow> string \<Rightarrow> bool" where
  "particle_installed particles reg c reg' c' particle =
     (case map_of particles particle of
        None \<Rightarrow> False
      | Some p \<Rightarrow>
          mass_name particle \<in> dom reg'
        \<and> constraint_of c' (mass_name particle)
            = Some ([mass_name particle], mass_distribution (pdg_mass p))
        \<and> (if fst (pdg_width p) = 0 then
             reg' (lifetime_name particle) = reg (lifetime_name particle)
           \<and> (constrained c' (lifetime_name particle) \<longrightarrow> constrained c (lifetime_name particle))
           else
             (case lifetime_distribution (pdg_width p) of
                Inl e \<Rightarrow> False
              | Inr d \<Rightarrow>
                  lifetime_name particle \<in> dom reg'
                \<and> constraint_of c' (lifetime_name particle) = Some ([lifetime_name particle], d))))"

section \<open>Example tables for the PDG loader\<close>

text \<open>
  A table that has every included particle, with a width for all but \<^verbatim>\<open>B*0\<close>; a
  state with a registered and constrained mass; a one-particle table with width
  \<open>(1.0, 0.1, -0.05)\<close>; and an environment whose constructors reject every distribution.
\<close>

definition example_included :: "(string \<times> particle) list" where
  "example_included =
     map (\<lambda>n. (n, \<lparr>pdg_id = ''0'', pdg_mass = (1, 1 / 10, - 1 / 10), pdg_charge = ''0'',
                   pdg_width = (if n = ''B*0'' then (0, 0, 0) else (1, 1 / 10, - 1 / 20)),
                   pdg_name = n\<rparr>)) pdg_include"

definition example_pdg_state :: state where
  "example_pdg_state =
     ([''m_B0'' \<mapsto> \<lparr>description = None, tex = None\<rparr>], [([''m_B0''], NormalDistribution 5 1)])"

definition example_width_table :: "(string \<times> particle) list" where
  "example_width_table =
     [(''B0'', \<lparr>pdg_id = ''511'', pdg_mass = (5, 1 / 10, - 1 / 10), pdg_charge = ''0'',
         pdg_width = (1, 1 / 10, - 1 / 20), pdg_name = ''B''\<rparr>)]"


section \<open>Properties\<close>

subsection \<open>Bag-parameter conversion\<close>

lemma bag_locals_unbound:
  "snd (bag_locals meson) = None \<longleftrightarrow> meson \<notin> {''B0'', ''Bs'', ''K0''}"
  by (simp add: bag_locals_def)

lemma py_pow_not_unbound: "py_pow x y \<noteq> Inl UnboundLocalError"
  by (simp add: py_pow_def)

text \<open>
  Claim C10. \<^verbatim>\<open>bag_msbar2rgi(alpha_s, meson)\<close> raises the unbound-variable error, for
  every \<^verbatim>\<open>alpha_s\<close>, exactly when \<^verbatim>\<open>meson\<close> is none of \<^verbatim>\<open>'B0'\<close>, \<^verbatim>\<open>'Bs'\<close>, \<^verbatim>\<open>'K0'\<close>;
  in particular it does so for \<^verbatim>\<open>'D0'\<close>, a key of \<^verbatim>\<open>meson_quark\<close>. For the three
  supported mesons and a positive \<^verbatim>\<open>alpha_s\<close> it returns a float.
\<close>

theorem bag_msbar2rgi_defined_iff:
  "(bag_msbar2rgi alpha_s meson = Inl UnboundLocalError
      \<longleftrightarrow> meson \<notin> {''B0'', ''Bs'', ''K0''})
   \<and> bag_msbar2rgi alpha_s ''D0'' = Inl UnboundLocalError
   \<and> (0 < alpha_s \<and> meson \<in> {''B0'', ''Bs'', ''K0''}
        \<longrightarrow> (\<exists>v. bag_msbar2rgi alpha_s meson = Inr (PyFloat v)))"
proof (intro conjI impI)
  show "bag_msbar2rgi alpha_s meson = Inl UnboundLocalError
          \<longleftrightarrow> meson \<notin> {''B0'', ''Bs'', ''K0''}"
    using py_pow_not_unbound [of alpha_s]
    by (auto simp: bag_msbar2rgi_def bag_locals_def split: sum.splits)
  show "bag_msbar2rgi alpha_s ''D0'' = Inl UnboundLocalError"
    by (simp add: bag_msbar2rgi_def bag_locals_def)
  show "\<exists>v. bag_msbar2rgi alpha_s meson = Inr (PyFloat v)"
    if "0 < alpha_s \<and> meson \<in> {''B0'', ''Bs'', ''K0''}"
    using that by (auto simp: bag_msbar2rgi_def bag_locals_def py_pow_def)
qed

theorem bag_msbar2rgi_defined_iff_witness:
  "bag_msbar2rgi (1 / 5) ''Bd'' = Inl UnboundLocalError
   \<and> (0 :: real) < 1 / 5 \<and> ''K0'' \<in> {''B0'', ''Bs'', ''K0''}
   \<and> (\<exists>v. bag_msbar2rgi (1 / 5) ''K0'' = Inr (PyFloat v))"
  using bag_msbar2rgi_defined_iff [of "1 / 5" "''Bd''"]
    bag_msbar2rgi_defined_iff [of "1 / 5" "''K0''"]
  by simp

subsection \<open>The correlated-value loader\<close>

lemma add_symmetric_sum:
  "add_symmetric acc xs = acc + (\<Sum>s\<leftarrow>xs. s ^ 2)"
  by (induction xs arbitrary: acc) simp_all

lemma add_asymmetric_sum:
  "add_asymmetric acc xs = acc + (\<Sum>a\<leftarrow>xs. fst a * snd a)"
  by (induction xs arbitrary: acc) simp_all

lemma squared_error_of_sum:
  "squared_error_of ed =
     (\<Sum>s\<leftarrow>symmetric_errors ed. s ^ 2) + (\<Sum>a\<leftarrow>asymmetric_errors ed. fst a * snd a)"
  by (simp add: squared_error_of_def add_symmetric_sum add_asymmetric_sum)

lemma read_group_values_acc:
  "read_group_values env reg vals (ns, cs, es) = Inr (ns', cs', es') \<Longrightarrow>
   \<exists>ns2 cs2 es2. ns' = ns @ ns2 \<and> cs' = cs @ cs2 \<and> es' = es @ es2
     \<and> list_all2 (\<lambda>dl n. dl \<noteq> [] \<and> n = fst (hd dl) \<and> reg n \<noteq> None) vals ns2
     \<and> list_all2 (\<lambda>dl c. \<exists>ed. dl \<noteq> [] \<and> errors_from_string env (snd (hd dl)) = Inr ed
                         \<and> c = central_value ed) vals cs2
     \<and> list_all2 (\<lambda>dl err. \<exists>ed. dl \<noteq> [] \<and> errors_from_string env (snd (hd dl)) = Inr ed
                         \<and> 0 \<le> squared_error_of ed \<and> err = sqrt (squared_error_of ed)) vals es2"
proof (induction vals arbitrary: ns cs es)
  case Nil
  then show ?case by simp
next
  case (Cons dl vals)
  from Cons.prems obtain n v tl where dl: "dl = (n, v) # tl"
    by (cases dl) (auto)
  from Cons.prems dl obtain p where p: "reg n = Some p"
    by (auto simp: Parameter_get_def split: option.splits)
  from Cons.prems dl p obtain ed where ed: "errors_from_string env v = Inr ed"
    by (auto simp: Parameter_get_def split: sum.splits)
  from Cons.prems dl p ed have nonneg: "0 \<le> squared_error_of ed"
    by (auto simp: Parameter_get_def combined_error_def py_sqrt_def split: if_splits)
  with Cons.prems dl p ed have rec:
    "read_group_values env reg vals (ns @ [n], cs @ [central_value ed], es @ [sqrt (squared_error_of ed)])
       = Inr (ns', cs', es')"
    by (simp add: Parameter_get_def combined_error_def py_sqrt_def)
  from Cons.IH [OF rec] obtain ns2 cs2 es2 where
    "ns' = (ns @ [n]) @ ns2" "cs' = (cs @ [central_value ed]) @ cs2"
    "es' = (es @ [sqrt (squared_error_of ed)]) @ es2"
    "list_all2 (\<lambda>dl n. dl \<noteq> [] \<and> n = fst (hd dl) \<and> reg n \<noteq> None) vals ns2"
    "list_all2 (\<lambda>dl c. \<exists>ed. dl \<noteq> [] \<and> errors_from_string env (snd (hd dl)) = Inr ed
                         \<and> c = central_value ed) vals cs2"
    "list_all2 (\<lambda>dl err. \<exists>ed. dl \<noteq> [] \<and> errors_from_string env (snd (hd dl)) = Inr ed
                         \<and> 0 \<le> squared_error_of ed \<and> err = sqrt (squared_error_of ed)) vals es2"
    by blast
  then show ?case using dl p ed nonneg
    apply -
    apply (rule exI [where x = "n # ns2"])
    apply (rule exI [where x = "central_value ed # cs2"])
    apply (rule exI [where x = "sqrt (squared_error_of ed) # es2"])
    apply simp
    done
qed

lemma square_map_length: "square n A \<longleftrightarrow> map length A = replicate n n"
proof
  assume sq: "square n A"
  then have "map length A = map (\<lambda>_. n) A"
    by (simp add: square_def list_all_iff)
  also have "\<dots> = replicate (length A) n" by (rule map_replicate_const)
  finally show "map length A = replicate n n" using sq by (simp add: square_def)
next
  assume eq: "map length A = replicate n n"
  then have "length (map length A) = length (replicate n n)" by (rule arg_cong)
  then have len: "length A = n" by simp
  have "length r = n" if "r \<in> set A" for r
  proof -
    from that have "length r \<in> set (map length A)" by simp
    with eq show ?thesis by simp
  qed
  with len show "square n A" by (simp add: square_def list_all_iff)
qed

lemma square_outer: "square (length a) (outer a a)"
  by (simp add: square_def outer_def list_all_iff)

lemma square_eye: "square n (eye n)"
  by (simp add: square_def eye_def list_all_iff)

lemma square_scale: "square n A \<Longrightarrow> square n (scale A k)"
  by (simp add: square_def scale_def list_all_iff)

lemma outer_nth: "i < length a \<Longrightarrow> j < length b \<Longrightarrow> outer a b ! i ! j = a ! i * b ! j"
  by (simp add: outer_def)

lemma eye_nth: "i < n \<Longrightarrow> j < n \<Longrightarrow> eye n ! i ! j = (if i = j then 1 else 0)"
  by (simp add: eye_def)

lemma scale_nth: "square n A \<Longrightarrow> i < n \<Longrightarrow> j < n \<Longrightarrow> scale A k ! i ! j = A ! i ! j * k"
  by (simp add: scale_def square_def list_all_iff)

lemma elementwise_square:
  assumes "square n A" "square n B"
  shows "\<exists>C. elementwise f A B = Inr C \<and> square n C
           \<and> (\<forall>i<n. \<forall>j<n. C ! i ! j = f (A ! i ! j) (B ! i ! j))"
proof -
  from assms have sh: "same_shape A B"
    by (simp add: same_shape_def square_map_length)
  let ?C = "map2 (\<lambda>r s. map2 f r s) A B"
  from assms have "square n ?C"
    by (auto simp: square_def list_all_iff in_set_zip)
  moreover from assms have "\<forall>i<n. \<forall>j<n. ?C ! i ! j = f (A ! i ! j) (B ! i ! j)"
    by (auto simp: square_def list_all_iff)
  ultimately show ?thesis using sh by (simp add: elementwise_def)
qed

lemma elementwise_not_square:
  "square n A \<Longrightarrow> \<not> square n B \<Longrightarrow> elementwise f A B = Inl ValueError"
  by (auto simp: elementwise_def same_shape_def square_map_length)

lemma covariance_square:
  assumes "square (length errors) corr"
  shows "\<exists>cov. covariance errors corr = Inr cov \<and> square (length errors) cov
           \<and> (\<forall>i<length errors. \<forall>j<length errors.
                 cov ! i ! j = errors ! i * errors ! j * corr ! i ! j)"
  using elementwise_square [OF square_outer assms, of "(*)"]
  by (auto simp: covariance_def outer_nth)

lemma damp_square:
  assumes "square n corr"
  shows "\<exists>corr'. damp corr = Inr corr' \<and> square n corr'
           \<and> (\<forall>i<n. \<forall>j<n. corr' ! i ! j =
                 99 / 100 * (corr ! i ! j - (if i = j then 1 else 0)) + (if i = j then 1 else 0))"
proof -
  from assms have n: "length corr = n" by (simp add: square_def)
  from elementwise_square [OF assms square_eye, of "(-)"] obtain d where
    d: "elementwise (-) corr (eye n) = Inr d" "square n d"
      "\<forall>i<n. \<forall>j<n. d ! i ! j = corr ! i ! j - eye n ! i ! j" by blast
  from elementwise_square [OF square_scale [OF d(2)] square_eye, of "(+)" "99 / 100"]
  obtain c where
    c: "elementwise (+) (scale d (99 / 100)) (eye n) = Inr c" "square n c"
      "\<forall>i<n. \<forall>j<n. c ! i ! j = scale d (99 / 100) ! i ! j + eye n ! i ! j" by blast
  have "\<forall>i<n. \<forall>j<n. c ! i ! j =
          99 / 100 * (corr ! i ! j - (if i = j then 1 else 0)) + (if i = j then 1 else 0)"
    using c(3) d(3) scale_nth [OF d(2)] by (simp add: eye_nth)
  with c d n show ?thesis by (simp add: damp_def)
qed


text \<open>
  Claim C2. The combined error of a parameter is the square root (\<^verbatim>\<open>math.sqrt\<close>, which
  raises on a negative argument) of the sum of the squares of its symmetric errors plus
  the sum over the asymmetric pairs of the product of the two sides; and every error
  that the loop over a group's values collects is that root for the parsed entry.
\<close>

theorem combined_error_formula:
  "combined_error ed =
     py_sqrt ((\<Sum>s\<leftarrow>symmetric_errors ed. s ^ 2) + (\<Sum>a\<leftarrow>asymmetric_errors ed. fst a * snd a))
   \<and> (read_group_values env reg vals ([], [], []) = Inr (names, cvs, errs) \<longrightarrow>
        list_all2 (\<lambda>dict_list err. \<exists>ed. dict_list \<noteq> []
            \<and> errors_from_string env (snd (hd dict_list)) = Inr ed
            \<and> err = sqrt ((\<Sum>s\<leftarrow>symmetric_errors ed. s ^ 2)
                          + (\<Sum>a\<leftarrow>asymmetric_errors ed. fst a * snd a)))
          vals errs)"
proof (intro conjI impI)
  show "combined_error ed =
     py_sqrt ((\<Sum>s\<leftarrow>symmetric_errors ed. s ^ 2) + (\<Sum>a\<leftarrow>asymmetric_errors ed. fst a * snd a))"
    by (simp add: combined_error_def squared_error_of_sum)
next
  assume "read_group_values env reg vals ([], [], []) = Inr (names, cvs, errs)"
  from read_group_values_acc [OF this]
  have "list_all2 (\<lambda>dl err. \<exists>ed. dl \<noteq> [] \<and> errors_from_string env (snd (hd dl)) = Inr ed
            \<and> 0 \<le> squared_error_of ed \<and> err = sqrt (squared_error_of ed)) vals errs"
    by simp
  then show "list_all2 (\<lambda>dict_list err. \<exists>ed. dict_list \<noteq> []
            \<and> errors_from_string env (snd (hd dict_list)) = Inr ed
            \<and> err = sqrt ((\<Sum>s\<leftarrow>symmetric_errors ed. s ^ 2)
                          + (\<Sum>a\<leftarrow>asymmetric_errors ed. fst a * snd a)))
          vals errs"
    by (rule list_all2_mono) (auto simp: squared_error_of_sum)
qed

lemma example_values:
  "read_group_values example_env example_registry
      [[(''a'', ''1.0 +- 0.3 +0.8 -0.2'')], [(''b'', ''2.0 +- 0.2'')]] ([], [], [])
    = Inr ([''a'', ''b''], [1, 2], [sqrt (25 / 100), sqrt (4 / 100)])"
  by (simp add: example_env_def example_registry_def example_errors_from_string_def
      Parameter_get_def combined_error_def py_sqrt_def squared_error_of_def power2_eq_square)

theorem combined_error_formula_witness:
  "read_group_values example_env example_registry
      [[(''a'', ''1.0 +- 0.3 +0.8 -0.2'')], [(''b'', ''2.0 +- 0.2'')]] ([], [], [])
    = Inr ([''a'', ''b''], [1, 2], [sqrt (25 / 100), sqrt (4 / 100)])
   \<and> list_all2 (\<lambda>dict_list err. \<exists>ed. dict_list \<noteq> []
            \<and> errors_from_string example_env (snd (hd dict_list)) = Inr ed
            \<and> err = sqrt ((\<Sum>s\<leftarrow>symmetric_errors ed. s ^ 2)
                          + (\<Sum>a\<leftarrow>asymmetric_errors ed. fst a * snd a)))
        [[(''a'', ''1.0 +- 0.3 +0.8 -0.2'')], [(''b'', ''2.0 +- 0.2'')]]
        [sqrt (25 / 100), sqrt (4 / 100)]"
  using example_values
    combined_error_formula [of "\<lparr>central_value = 0, symmetric_errors = [], asymmetric_errors = []\<rparr>" example_env example_registry
      "[[(''a'', ''1.0 +- 0.3 +0.8 -0.2'')], [(''b'', ''2.0 +- 0.2'')]]"
      "[''a'', ''b'']" "[1, 2]" "[sqrt (25 / 100), sqrt (4 / 100)]"]
  by blast

text \<open>
  Claim C1. For a group whose values were read and whose correlation matrix is \<open>n \<times> n\<close>,
  the loader reaches \<^verbatim>\<open>add_constraint\<close> if and only if the eigenvalue test holds for the
  covariance or, failing that, for the covariance rebuilt once from the damped
  correlation \<open>0.99 * (C - I) + I\<close>; when both tests fail the group, and with it the
  whole load, stops with the assertion error. There is no further attempt.
\<close>

theorem group_covariance_one_damping_pass:
  assumes vals: "read_group_values env reg (group_values g) ([], [], []) = Inr (names, cvs, errs)"
    and fixed: "fix_correlation_matrix env (correlation g) (length names) = Inr corr"
    and sq: "square (length errs) corr"
  shows "\<exists>cov0 corr1 cov1.
      covariance errs corr = Inr cov0 \<and> damp corr = Inr corr1 \<and> covariance errs corr1 = Inr cov1
    \<and> (\<forall>i<length errs. \<forall>j<length errs.
          corr1 ! i ! j = 99 / 100 * (corr ! i ! j - (if i = j then 1 else 0))
                           + (if i = j then 1 else 0))
    \<and> checked_covariance (eig_positive env) errs corr =
        (if eig_positive env cov0 then Inr cov0
         else if eig_positive env cov1 then Inr cov1
         else Inl AssertionError)
    \<and> ((\<exists>cov. checked_covariance (eig_positive env) errs corr = Inr cov)
          \<longleftrightarrow> eig_positive env cov0 \<or> eig_positive env cov1)
    \<and> read_group env reg g c =
        (if eig_positive env cov0 then
           add_constraint env c names (MultivariateNormalDistribution cvs cov0)
         else if eig_positive env cov1 then
           add_constraint env c names (MultivariateNormalDistribution cvs cov1)
         else Inl AssertionError)
    \<and> (\<not> eig_positive env cov0 \<and> \<not> eig_positive env cov1 \<longrightarrow>
         read_yaml_object_values_correlated env reg (g # rest) c = (c, Some AssertionError))"
proof -
  from covariance_square [OF sq] obtain cov0 where
    cov0: "covariance errs corr = Inr cov0" by blast
  from damp_square [OF sq] obtain corr1 where
    corr1: "damp corr = Inr corr1" "square (length errs) corr1"
      "\<forall>i<length errs. \<forall>j<length errs.
          corr1 ! i ! j = 99 / 100 * (corr ! i ! j - (if i = j then 1 else 0))
                           + (if i = j then 1 else 0)" by blast
  from covariance_square [OF corr1(2)] obtain cov1 where
    cov1: "covariance errs corr1 = Inr cov1" by blast
  have chk: "checked_covariance (eig_positive env) errs corr =
        (if eig_positive env cov0 then Inr cov0
         else if eig_positive env cov1 then Inr cov1
         else Inl AssertionError)"
    by (simp add: checked_covariance_def cov0 corr1(1) cov1)
  have grp: "read_group env reg g c =
        (if eig_positive env cov0 then
           add_constraint env c names (MultivariateNormalDistribution cvs cov0)
         else if eig_positive env cov1 then
           add_constraint env c names (MultivariateNormalDistribution cvs cov1)
         else Inl AssertionError)"
    by (simp add: read_group_def vals fixed chk)
  have iff: "(\<exists>cov. checked_covariance (eig_positive env) errs corr = Inr cov)
          \<longleftrightarrow> eig_positive env cov0 \<or> eig_positive env cov1"
    by (simp add: chk)
  have abort: "\<not> eig_positive env cov0 \<and> \<not> eig_positive env cov1 \<longrightarrow>
         read_yaml_object_values_correlated env reg (g # rest) c = (c, Some AssertionError)"
    by (simp add: grp)
  from cov0 corr1(1) cov1 corr1(3) chk iff grp abort show ?thesis by blast
qed


lemma example_sqrts: "sqrt (1 / 4) = 1 / 2" "sqrt (1 / 25) = 1 / 5"
  by (rule real_sqrt_unique; simp add: power2_eq_square)+

lemma example_group_values:
  "read_group_values example_env example_registry (group_values example_group) ([], [], [])
     = Inr ([''a'', ''b''], [1, 2], [1 / 2, 1 / 5])"
  using example_values by (simp add: example_group_def example_sqrts)

theorem group_covariance_one_damping_pass_witness:
  "read_group_values example_env example_registry (group_values example_group) ([], [], [])
     = Inr ([''a'', ''b''], [1, 2], [1 / 2, 1 / 5])
   \<and> fix_correlation_matrix example_env (correlation example_group) (length [''a'', ''b''])
        = Inr [[1, 1], [1, 1]]
   \<and> square (length [1 / 2, 1 / 5 :: real]) [[1, 1], [1, 1]]
   \<and> \<not> eig_positive example_env [[1 / 4, 1 / 10], [1 / 10, 1 / 25]]
   \<and> read_group example_env example_registry example_group []
        = Inr [([''a'', ''b''],
                MultivariateNormalDistribution [1, 2] [[1 / 4, 99 / 1000], [99 / 1000, 1 / 25]])]"
proof -
  have fixed: "fix_correlation_matrix example_env (correlation example_group) (length [''a'', ''b''])
        = Inr [[1, 1], [1, 1]]"
    by (simp add: example_env_def example_group_def)
  have sq: "square (length [1 / 2, 1 / 5 :: real]) [[1, 1], [1, 1]]"
    by (simp add: square_def)
  have c0: "covariance [1 / 2, 1 / 5] [[1, 1], [1, 1]] = Inr [[1 / 4, 1 / 10], [1 / 10, 1 / 25]]"
    by (simp add: covariance_def outer_def elementwise_def same_shape_def)
  have d: "damp [[1, 1], [1, 1]] = Inr [[1, 99 / 100], [99 / 100, 1]]"
    by (simp add: damp_def eye_def elementwise_def same_shape_def scale_def upt_rec)
  have c1: "covariance [1 / 2, 1 / 5] [[1, 99 / 100], [99 / 100, 1]]
              = Inr [[1 / 4, 99 / 1000], [99 / 1000, 1 / 25]]"
    by (simp add: covariance_def outer_def elementwise_def same_shape_def)
  have e0: "\<not> eig_positive example_env [[1 / 4, 1 / 10], [1 / 10, 1 / 25]]"
    by (simp add: example_env_def eig_positive_2x2_def)
  have e1: "eig_positive example_env [[1 / 4, 99 / 1000], [99 / 1000, 1 / 25]]"
    by (simp add: example_env_def eig_positive_2x2_def)
  have add: "add_constraint example_env [] [''a'', ''b'']
               (MultivariateNormalDistribution [1, 2] [[1 / 4, 99 / 1000], [99 / 1000, 1 / 25]])
             = Inr [([''a'', ''b''],
                MultivariateNormalDistribution [1, 2] [[1 / 4, 99 / 1000], [99 / 1000, 1 / 25]])]"
    by (simp add: add_constraint_def example_env_def constrained_def)
  from group_covariance_one_damping_pass [OF example_group_values fixed sq, of "[]" "[]"]
  have "read_group example_env example_registry example_group []
        = Inr [([''a'', ''b''],
                MultivariateNormalDistribution [1, 2] [[1 / 4, 99 / 1000], [99 / 1000, 1 / 25]])]"
    using e0 e1 by (auto simp: c0 d c1 add)
  with example_group_values fixed sq e0 show ?thesis by blast
qed

lemma square_tabulate:
  assumes "square n A"
  shows "A = map (\<lambda>i. map (\<lambda>j. A ! i ! j) [0..<n]) [0..<n]"
proof (rule nth_equalityI)
  from assms show "length A = length (map (\<lambda>i. map (\<lambda>j. A ! i ! j) [0..<n]) [0..<n])"
    by (simp add: square_def)
next
  fix i assume "i < length A"
  with assms have i: "i < n" and len: "length (A ! i) = n"
    by (auto simp: square_def list_all_iff)
  have "A ! i = map (\<lambda>j. A ! i ! j) [0..<n]"
    by (rule nth_equalityI) (simp_all add: len)
  with i show "A ! i = map (\<lambda>i. map (\<lambda>j. A ! i ! j) [0..<n]) [0..<n] ! i"
    by simp
qed

lemma covariance_explicit:
  assumes "square (length errors) corr"
  shows "covariance errors corr =
     Inr (map (\<lambda>i. map (\<lambda>j. errors ! i * errors ! j * corr ! i ! j) [0..<length errors])
            [0..<length errors])"
proof -
  from covariance_square [OF assms] obtain cov where
    cov: "covariance errors corr = Inr cov" "square (length errors) cov"
      "\<forall>i<length errors. \<forall>j<length errors. cov ! i ! j = errors ! i * errors ! j * corr ! i ! j"
    by blast
  have "cov = map (\<lambda>i. map (\<lambda>j. cov ! i ! j) [0..<length errors]) [0..<length errors]"
    by (rule square_tabulate [OF cov(2)])
  also have "\<dots> = map (\<lambda>i. map (\<lambda>j. errors ! i * errors ! j * corr ! i ! j) [0..<length errors])
            [0..<length errors]"
    using cov(3) by simp
  finally show ?thesis using cov(1) by simp
qed

text \<open>
  Claim C3. For a group whose values were read and whose correlation matrix is \<open>n \<times> n\<close>,
  the covariance that the loader builds is the element-wise product of
  \<^verbatim>\<open>outer(errors, errors)\<close> and the correlation matrix, entry \<open>(i, j)\<close> being
  \<open>errors\<^sub>i * errors\<^sub>j * correlation\<^sub>i\<^sub>j\<close>. It is the matrix the loader tests first and, when
  the test holds, the covariance of the joint constraint it installs; when the test
  fails, the only other covariance it can install is the same product for the damped
  correlation. For errors 0.1 and 0.2 with correlation 0.9 the installed covariance is
  \<open>[[0.01, 0.018], [0.018, 0.04]]\<close>.
\<close>

theorem covariance_outer_times_correlation:
  assumes vals: "read_group_values env reg (group_values g) ([], [], []) = Inr (names, cvs, errs)"
    and fixed: "fix_correlation_matrix env (correlation g) (length names) = Inr corr"
    and sq: "square (length errs) corr"
    and cov: "cov = map (\<lambda>i. map (\<lambda>j. errs ! i * errs ! j * corr ! i ! j) [0..<length errs])
                      [0..<length errs]"
  shows "covariance errs corr = Inr cov
    \<and> (\<forall>i<length errs. \<forall>j<length errs.
          outer errs errs ! i ! j = errs ! i * errs ! j
        \<and> cov ! i ! j = outer errs errs ! i ! j * corr ! i ! j)
    \<and> (eig_positive env cov \<longrightarrow>
          checked_covariance (eig_positive env) errs corr = Inr cov
        \<and> read_group env reg g c =
            add_constraint env c names (MultivariateNormalDistribution cvs cov)
        \<and> (validate env (MultivariateNormalDistribution cvs cov) = None
             \<and> \<not> (\<exists>n \<in> set names. constrained c n) \<longrightarrow>
            read_yaml_object_values_correlated env reg [g] c
              = (c @ [(names, MultivariateNormalDistribution cvs cov)], None)))
    \<and> (\<not> eig_positive env cov \<longrightarrow>
          (\<forall>cov'. checked_covariance (eig_positive env) errs corr = Inr cov' \<longrightarrow>
             (\<exists>corr1. damp corr = Inr corr1
                \<and> cov' = map (\<lambda>i. map (\<lambda>j. errs ! i * errs ! j * corr1 ! i ! j) [0..<length errs])
                           [0..<length errs])))"
proof (intro conjI impI allI)
  show c0: "covariance errs corr = Inr cov"
    unfolding cov by (rule covariance_explicit [OF sq])
  show "outer errs errs ! i ! j = errs ! i * errs ! j" if "i < length errs" "j < length errs" for i j
    using that by (simp add: outer_nth)
  show "cov ! i ! j = outer errs errs ! i ! j * corr ! i ! j"
    if "i < length errs" "j < length errs" for i j
    using that by (simp add: cov outer_nth)
  {
    assume pos: "eig_positive env cov"
    show chk: "checked_covariance (eig_positive env) errs corr = Inr cov"
      by (simp add: checked_covariance_def c0 pos)
    show grp: "read_group env reg g c =
            add_constraint env c names (MultivariateNormalDistribution cvs cov)"
      by (simp add: read_group_def vals fixed chk)
    assume "validate env (MultivariateNormalDistribution cvs cov) = None
             \<and> \<not> (\<exists>n \<in> set names. constrained c n)"
    then show "read_yaml_object_values_correlated env reg [g] c
              = (c @ [(names, MultivariateNormalDistribution cvs cov)], None)"
      by (simp add: grp add_constraint_def)
  }
  {
    fix cov'
    assume neg: "\<not> eig_positive env cov"
      and chk: "checked_covariance (eig_positive env) errs corr = Inr cov'"
    from damp_square [OF sq] obtain corr1 where
      corr1: "damp corr = Inr corr1" "square (length errs) corr1" by blast
    from chk neg have "cov' = map (\<lambda>i. map (\<lambda>j. errs ! i * errs ! j * corr1 ! i ! j) [0..<length errs])
                           [0..<length errs]"
      by (simp add: checked_covariance_def c0 corr1(1) covariance_explicit [OF corr1(2)]
          split: if_splits)
    with corr1(1) show "\<exists>corr1. damp corr = Inr corr1
                \<and> cov' = map (\<lambda>i. map (\<lambda>j. errs ! i * errs ! j * corr1 ! i ! j) [0..<length errs])
                           [0..<length errs]"
      by blast
  }
qed

lemma example_sqrt_hundredth: "sqrt (1 / 100) = 1 / 10"
  by (rule real_sqrt_unique) (simp_all add: power2_eq_square)

lemma example_correlated_values:
  "read_group_values example_env example_registry (group_values example_correlated_group) ([], [], [])
     = Inr ([''a'', ''b''], [1, 2], [1 / 10, 2 / 10])"
  by (simp add: example_correlated_group_def example_env_def example_registry_def
      example_errors_from_string_def Parameter_get_def combined_error_def py_sqrt_def
      squared_error_of_def power2_eq_square example_sqrt_hundredth example_sqrts)

theorem covariance_outer_times_correlation_witness:
  "read_group_values example_env example_registry (group_values example_correlated_group) ([], [], [])
     = Inr ([''a'', ''b''], [1, 2], [1 / 10, 2 / 10])
   \<and> fix_correlation_matrix example_env (correlation example_correlated_group) (length [''a'', ''b''])
       = Inr [[1, 9 / 10], [9 / 10, 1]]
   \<and> square (length [1 / 10, 2 / 10 :: real]) [[1, 9 / 10], [9 / 10, 1]]
   \<and> [[1 / 100, 18 / 1000], [18 / 1000, 4 / 100]]
       = map (\<lambda>i. map (\<lambda>j. [1 / 10, 2 / 10 :: real] ! i * [1 / 10, 2 / 10] ! j
                              * [[1, 9 / 10], [9 / 10, 1]] ! i ! j)
                [0..<length [1 / 10, 2 / 10 :: real]]) [0..<length [1 / 10, 2 / 10 :: real]]
   \<and> eig_positive example_env [[1 / 100, 18 / 1000], [18 / 1000, 4 / 100]]
   \<and> validate example_env
        (MultivariateNormalDistribution [1, 2] [[1 / 100, 18 / 1000], [18 / 1000, 4 / 100]]) = None
   \<and> \<not> (\<exists>n \<in> set [''a'', ''b'']. constrained [] n)
   \<and> covariance [1 / 10, 2 / 10] [[1, 9 / 10], [9 / 10, 1]]
       = Inr [[1 / 100, 18 / 1000], [18 / 1000, 4 / 100]]
   \<and> read_yaml_object_values_correlated example_env example_registry [example_correlated_group] []
       = ([([''a'', ''b''],
            MultivariateNormalDistribution [1, 2] [[1 / 100, 18 / 1000], [18 / 1000, 4 / 100]])],
          None)"
proof -
  have fixed: "fix_correlation_matrix example_env (correlation example_correlated_group)
        (length [''a'', ''b'']) = Inr [[1, 9 / 10], [9 / 10, 1]]"
    by (simp add: example_env_def example_correlated_group_def)
  have sq: "square (length [1 / 10, 2 / 10 :: real]) [[1, 9 / 10], [9 / 10, 1]]"
    by (simp add: square_def)
  have cov: "[[1 / 100, 18 / 1000], [18 / 1000, 4 / 100]]
       = map (\<lambda>i. map (\<lambda>j. [1 / 10, 2 / 10 :: real] ! i * [1 / 10, 2 / 10] ! j
                              * [[1, 9 / 10], [9 / 10, 1]] ! i ! j)
                [0..<length [1 / 10, 2 / 10 :: real]]) [0..<length [1 / 10, 2 / 10 :: real]]"
    by (simp add: upt_rec)
  have pos: "eig_positive example_env [[1 / 100, 18 / 1000], [18 / 1000, 4 / 100]]"
    by (simp add: example_env_def eig_positive_2x2_def)
  have val: "validate example_env
        (MultivariateNormalDistribution [1, 2] [[1 / 100, 18 / 1000], [18 / 1000, 4 / 100]]) = None"
    by (simp add: example_env_def)
  have free: "\<not> (\<exists>n \<in> set [''a'', ''b'']. constrained [] n)"
    by (simp add: constrained_def)
  note inst = covariance_outer_times_correlation [OF example_correlated_values fixed sq cov, of "[]"]
  note c = inst [THEN conjunct1]
  note installed = inst [THEN conjunct2, THEN conjunct2, THEN conjunct1, THEN mp, OF pos,
      THEN conjunct2, THEN conjunct2, THEN mp, OF conjI [OF val free]]
  from installed
  have r: "read_yaml_object_values_correlated example_env example_registry [example_correlated_group] []
       = ([([''a'', ''b''],
            MultivariateNormalDistribution [1, 2] [[1 / 100, 18 / 1000], [18 / 1000, 4 / 100]])],
          None)"
    by (simp only: append_Nil)
  from example_correlated_values fixed sq cov pos val free c r show ?thesis by blast
qed

subsection \<open>The metadata loader\<close>

lemma metadata_entry_other:
  "metadata_entry reg n info = (reg', e) \<Longrightarrow> m \<noteq> n \<Longrightarrow> reg' m = reg m"
  by (auto simp: metadata_entry_def Parameter_new_def set_description_def set_tex_def Let_def
      split: option.splits)

lemma metadata_entry_sets:
  assumes "metadata_entry reg n (Some d) = (reg', e)"
  shows "e = None \<and> (\<exists>p. reg' n = Some p
           \<and> (\<forall>s. d ''description'' = Some (Some s) \<longrightarrow> description p = Some s)
           \<and> (\<forall>s. d ''tex'' = Some (Some s) \<longrightarrow> tex p = Some s))"
  using assms
  by (auto simp: metadata_entry_def Parameter_new_def set_description_def set_tex_def Let_def
      split: option.splits)

lemma read_yaml_object_metadata_frame:
  "read_yaml_object_metadata ps (reg, c) = ((reg', c'), e) \<Longrightarrow>
     c' = c \<and> (\<forall>m. m \<notin> fst ` set ps \<longrightarrow> reg' m = reg m)"
proof (induction ps arbitrary: reg)
  case Nil
  then show ?case by simp
next
  case (Cons a ps)
  obtain n info where a: "a = (n, info)" by (cases a)
  obtain reg1 e1 where m: "metadata_entry reg n info = (reg1, e1)"
    by (cases "metadata_entry reg n info")
  show ?case
  proof (cases e1)
    case None
    with Cons.prems a m have "read_yaml_object_metadata ps (reg1, c) = ((reg', c'), e)"
      by simp
    from Cons.IH [OF this] metadata_entry_other [OF m] a show ?thesis by auto
  next
    case (Some err)
    with Cons.prems a m have "reg' = reg1" "c' = c" by simp_all
    with metadata_entry_other [OF m] a show ?thesis by auto
  qed
qed

text \<open>
  Claim C8. The metadata loader leaves the \<^verbatim>\<open>ParameterConstraints\<close> instance as it
  was, whether it returns or raises; and after a load that returns, every entry's
  parameter is registered and carries the entry's description and label wherever the
  entry gives one that is not null.
\<close>

theorem metadata_updates_parameters_only:
  "snd (fst (read_yaml_object_metadata parameters (reg, constraints))) = constraints
   \<and> (distinct (map fst parameters)
        \<and> read_yaml_object_metadata parameters (reg, constraints) = ((reg', c'), None)
        \<and> (name, Some d) \<in> set parameters \<longrightarrow>
          (\<exists>p. reg' name = Some p
             \<and> (\<forall>s. d ''description'' = Some (Some s) \<longrightarrow> description p = Some s)
             \<and> (\<forall>s. d ''tex'' = Some (Some s) \<longrightarrow> tex p = Some s)))"
proof (intro conjI impI)
  obtain r c e where "read_yaml_object_metadata parameters (reg, constraints) = ((r, c), e)"
    by (metis surj_pair)
  with read_yaml_object_metadata_frame [OF this]
  show "snd (fst (read_yaml_object_metadata parameters (reg, constraints))) = constraints"
    by simp
next
  assume "distinct (map fst parameters)
        \<and> read_yaml_object_metadata parameters (reg, constraints) = ((reg', c'), None)
        \<and> (name, Some d) \<in> set parameters"
  then show "\<exists>p. reg' name = Some p
             \<and> (\<forall>s. d ''description'' = Some (Some s) \<longrightarrow> description p = Some s)
             \<and> (\<forall>s. d ''tex'' = Some (Some s) \<longrightarrow> tex p = Some s)"
  proof (induction parameters arbitrary: reg)
    case Nil
    then show ?case by simp
  next
    case (Cons a ps)
    obtain n info where a: "a = (n, info)" by (cases a)
    obtain reg1 e1 where m: "metadata_entry reg n info = (reg1, e1)"
      by (cases "metadata_entry reg n info")
    from Cons.prems a m have e1: "e1 = None"
      by (cases e1) auto
    with Cons.prems a m have rest: "read_yaml_object_metadata ps (reg1, constraints) = ((reg', c'), None)"
      by simp
    show ?case
    proof (cases "(name, Some d) \<in> set ps")
      case True
      with Cons.prems rest have "distinct (map fst ps)
        \<and> read_yaml_object_metadata ps (reg1, constraints) = ((reg', c'), None)
        \<and> (name, Some d) \<in> set ps" by simp
      from Cons.IH [OF this] show ?thesis .
    next
      case False
      with Cons.prems a have eq: "n = name" "info = Some d" by auto
      from Cons.prems a eq have "name \<notin> fst ` set ps" by auto
      with read_yaml_object_metadata_frame [OF rest] have "reg' name = reg1 name" by blast
      with metadata_entry_sets [of reg name d reg1 e1] m eq show ?thesis by simp
    qed
  qed
qed

theorem metadata_updates_parameters_only_witness:
  "distinct (map fst example_metadata)
   \<and> read_yaml_object_metadata example_metadata (Map.empty, [([''m_y''], NormalDistribution 1 2)])
       = (([''m_x'' \<mapsto> \<lparr>description = Some ''test mass'', tex = None\<rparr>],
           [([''m_y''], NormalDistribution 1 2)]), None)
   \<and> (''m_x'', Some [''description'' \<mapsto> Some ''test mass'']) \<in> set example_metadata
   \<and> (\<exists>p. [''m_x'' \<mapsto> \<lparr>description = Some ''test mass'', tex = None\<rparr>] ''m_x'' = Some p
          \<and> description p = Some ''test mass'')"
proof -
  have d: "distinct (map fst example_metadata)"
    by (simp add: example_metadata_def)
  have r: "read_yaml_object_metadata example_metadata (Map.empty, [([''m_y''], NormalDistribution 1 2)])
       = (([''m_x'' \<mapsto> \<lparr>description = Some ''test mass'', tex = None\<rparr>],
           [([''m_y''], NormalDistribution 1 2)]), None)"
    by (simp add: example_metadata_def metadata_entry_def Parameter_new_def set_description_def
        set_tex_def)
  have m: "(''m_x'', Some [''description'' \<mapsto> Some ''test mass'']) \<in> set example_metadata"
    by (simp add: example_metadata_def)
  from metadata_updates_parameters_only [of example_metadata Map.empty
      "[([''m_y''], NormalDistribution 1 2)]"
      "[''m_x'' \<mapsto> \<lparr>description = Some ''test mass'', tex = None\<rparr>]"
      "[([''m_y''], NormalDistribution 1 2)]" "''m_x''" "[''description'' \<mapsto> Some ''test mass'']"]
    d r m
  have "\<exists>p. [''m_x'' \<mapsto> \<lparr>description = Some ''test mass'', tex = None\<rparr>] ''m_x'' = Some p
          \<and> description p = Some ''test mass''"
    by auto
  with d r m show ?thesis by blast
qed

subsection \<open>Unregistered parameter names\<close>

lemma read_yaml_object_values_append:
  "read_yaml_object_values env reg (xs @ ys) c =
     (case read_yaml_object_values env reg xs c of
        (c', None) \<Rightarrow> read_yaml_object_values env reg ys c'
      | (c', Some e) \<Rightarrow> (c', Some e))"
  by (induction xs arbitrary: c) (auto split: sum.splits)

lemma read_group_values_append:
  "read_group_values env reg (xs @ ys) acc =
     (case read_group_values env reg xs acc of
        Inl e \<Rightarrow> Inl e
      | Inr acc' \<Rightarrow> read_group_values env reg ys acc')"
proof (induction xs arbitrary: acc)
  case Nil
  then show ?case by simp
next
  case (Cons dl xs)
  obtain ns cs es where acc: "acc = (ns, cs, es)" by (cases acc)
  show ?case using Cons.IH
    by (simp add: acc split: list.splits sum.splits prod.splits)
qed

lemma read_yaml_object_values_correlated_append:
  "read_yaml_object_values_correlated env reg (xs @ ys) c =
     (case read_yaml_object_values_correlated env reg xs c of
        (c', None) \<Rightarrow> read_yaml_object_values_correlated env reg ys c'
      | (c', Some e) \<Rightarrow> (c', Some e))"
  by (induction xs arbitrary: c) (auto split: sum.splits)

text \<open>
  Claim C7. An entry that names an unregistered parameter makes both value loaders stop
  at the lookup. In the uncorrelated loader the constraints are those left by the
  entries before it, and the error is the lookup's unless an earlier entry already
  failed. In the correlated loader the group of the entry raises (the lookup's error
  when the entries before it in the group were read) and installs nothing.
\<close>

theorem unregistered_name_fails_fast:
  assumes "reg n = None"
  shows "read_yaml_object_values env reg (xs @ (n, v) # ys) c =
           (case read_yaml_object_values env reg xs c of
              (c', None) \<Rightarrow> (c', Some KeyError)
            | (c', Some e) \<Rightarrow> (c', Some e))
    \<and> (group_values g = pre @ ((n, v) # others) # post \<longrightarrow>
         read_group env reg g c =
           (case read_group_values env reg pre ([], [], []) of
              Inl e \<Rightarrow> Inl e
            | Inr acc \<Rightarrow> Inl KeyError)
       \<and> (\<exists>e. read_yaml_object_values_correlated env reg (gs @ g # rest) c =
           (case read_yaml_object_values_correlated env reg gs c of
              (c', None) \<Rightarrow> (c', Some e)
            | (c', Some e') \<Rightarrow> (c', Some e'))))"
proof (intro conjI impI)
  show "read_yaml_object_values env reg (xs @ (n, v) # ys) c =
           (case read_yaml_object_values env reg xs c of
              (c', None) \<Rightarrow> (c', Some KeyError)
            | (c', Some e) \<Rightarrow> (c', Some e))"
    using assms
    by (simp add: read_yaml_object_values_append Parameter_get_def split: prod.splits option.splits)
next
  assume h: "group_values g = pre @ ((n, v) # others) # post"
  have grp: "read_group env reg g c' =
           (case read_group_values env reg pre ([], [], []) of
              Inl e \<Rightarrow> Inl e
            | Inr acc \<Rightarrow> Inl KeyError)" for c'
    using assms h
    by (auto simp: read_group_def read_group_values_append Parameter_get_def split: sum.splits)
  then show "read_group env reg g c =
           (case read_group_values env reg pre ([], [], []) of
              Inl e \<Rightarrow> Inl e
            | Inr acc \<Rightarrow> Inl KeyError)" .
  obtain e where e: "\<And>c'. read_group env reg g c' = Inl e"
    using grp by (cases "read_group_values env reg pre ([], [], [])") auto
  show "\<exists>e. read_yaml_object_values_correlated env reg (gs @ g # rest) c =
           (case read_yaml_object_values_correlated env reg gs c of
              (c', None) \<Rightarrow> (c', Some e)
            | (c', Some e') \<Rightarrow> (c', Some e'))"
    by (rule exI [of _ e])
      (simp add: read_yaml_object_values_correlated_append e split: prod.splits option.splits)
qed


theorem unregistered_name_fails_fast_witness:
  "example_registry ''zz'' = None
   \<and> read_yaml_object_values example_env example_registry
        ([(''a'', ''2.0 +- 0.2'')] @ (''zz'', ''2.0 +- 0.2'') # [(''b'', ''2.0 +- 0.2'')]) []
       = ([([''a''], NormalDistribution 2 0)], Some KeyError)
   \<and> group_values example_bad_group
       = [[(''a'', ''2.0 +- 0.2'')]] @ ((''zz'', ''2.0 +- 0.2'') # []) # []
   \<and> read_group example_env example_registry example_bad_group [] = Inl KeyError"
proof -
  have z: "example_registry ''zz'' = None"
    by (simp add: example_registry_def)
  have g: "group_values example_bad_group
       = [[(''a'', ''2.0 +- 0.2'')]] @ ((''zz'', ''2.0 +- 0.2'') # []) # []"
    by (simp add: example_bad_group_def)
  have pre: "read_yaml_object_values example_env example_registry [(''a'', ''2.0 +- 0.2'')] []
       = ([([''a''], NormalDistribution 2 0)], None)"
    by (simp add: example_env_def example_registry_def example_errors_from_string_def
        Parameter_get_def)
  have gpre: "\<exists>acc. read_group_values example_env example_registry [[(''a'', ''2.0 +- 0.2'')]] ([], [], [])
       = Inr acc"
    by (simp add: example_env_def example_registry_def example_errors_from_string_def
        Parameter_get_def combined_error_def py_sqrt_def squared_error_of_def)
  from unregistered_name_fails_fast [where reg = example_registry and n = "''zz''"
      and env = example_env and xs = "[(''a'', ''2.0 +- 0.2'')]" and v = "''2.0 +- 0.2''"
      and ys = "[(''b'', ''2.0 +- 0.2'')]" and c = "[]" and g = example_bad_group
      and pre = "[[(''a'', ''2.0 +- 0.2'')]]" and others = "[]" and post = "[]"
      and gs = "[]" and rest = "[]"] z g pre gpre
  have "read_yaml_object_values example_env example_registry
        ([(''a'', ''2.0 +- 0.2'')] @ (''zz'', ''2.0 +- 0.2'') # [(''b'', ''2.0 +- 0.2'')]) []
       = ([([''a''], NormalDistribution 2 0)], Some KeyError)
     \<and> read_group example_env example_registry example_bad_group [] = Inl KeyError"
    by auto
  with z g show ?thesis by blast
qed

subsection \<open>The PDG table\<close>

lemma strip_comment: "strip example_comment = CHR ''*'' # '' MASS AND WIDTH TABLE''"
  by (simp add: example_comment_def strip_def py_isspace_def)



lemma read_lines_append:
  "read_lines float_of (xs @ ys) pbn =
     (case read_lines float_of xs pbn of
        Inl e \<Rightarrow> Inl e
      | Inr pbn' \<Rightarrow> read_lines float_of ys pbn')"
  by (induction xs arbitrary: pbn) (auto split: list.splits sum.splits)

lemma floats3_error: "floats3 float_of t = Inl e \<Longrightarrow> e = ValueError"
  by (auto simp: floats3_def split: prod.splits option.splits)

lemma parse_row_mismatch:
  assumes "py_split (slice 107 128 line) = nm # cl # toks"
    and "length (py_split (slice 0 32 line)) \<noteq> length (py_split_on (CHR '','') cl)"
  shows "parse_row float_of line = Inl ValueError"
  using assms
  by (auto simp: parse_row_def Let_def split: sum.splits dest: floats3_error)

text \<open>
  Claim C6. A line whose first non-whitespace character is \<^verbatim>\<open>*\<close> is skipped: the table
  parses as it does without the line, so the line contributes no entry. A data row
  whose list of ID codes and list of charge labels differ in length makes the row, and
  with it the parse of the whole table, fail with an error; no entry of the row is kept.
\<close>

theorem comment_skipped_and_mismatch_fails:
  "(strip line = CHR ''*'' # r \<longrightarrow>
      read_lines float_of (pre @ line # rest) pbn = read_lines float_of (pre @ rest) pbn
    \<and> read_pdg_masswidth float_of (pre @ line # rest) = read_pdg_masswidth float_of (pre @ rest))
   \<and> (strip line = c # r \<and> c \<noteq> CHR ''*''
        \<and> py_split (slice 107 128 line) = nm # cl # toks
        \<and> length (py_split (slice 0 32 line)) \<noteq> length (py_split_on (CHR '','') cl) \<longrightarrow>
      parse_row float_of line = Inl ValueError
    \<and> (\<exists>e. read_lines float_of (pre @ line # rest) pbn = Inl e)
    \<and> (\<exists>e. read_pdg_masswidth float_of (pre @ line # rest) = Inl e)
    \<and> read_pdg_masswidth float_of (line # rest) = Inl ValueError)"
proof (intro conjI impI)
  assume s: "strip line = CHR ''*'' # r"
  then have skip: "read_lines float_of (pre @ line # rest) q = read_lines float_of (pre @ rest) q" for q
    by (simp add: read_lines_append split: sum.splits)
  then show "read_lines float_of (pre @ line # rest) pbn = read_lines float_of (pre @ rest) pbn" .
  from skip show "read_pdg_masswidth float_of (pre @ line # rest) = read_pdg_masswidth float_of (pre @ rest)"
    by (simp add: read_pdg_masswidth_def)
next
  assume h: "strip line = c # r \<and> c \<noteq> CHR ''*''
        \<and> py_split (slice 107 128 line) = nm # cl # toks
        \<and> length (py_split (slice 0 32 line)) \<noteq> length (py_split_on (CHR '','') cl)"
  then have row: "parse_row float_of line = Inl ValueError"
    by (blast intro: parse_row_mismatch)
  then show "parse_row float_of line = Inl ValueError" .
  from h row have one: "read_lines float_of (line # rest) q = Inl ValueError" for q
    by simp
  then have ex: "\<exists>e. read_lines float_of (pre @ line # rest) q = Inl e" for q
    by (cases "read_lines float_of pre q") (simp_all add: read_lines_append)
  then show "\<exists>e. read_lines float_of (pre @ line # rest) pbn = Inl e" .
  from ex [of "[]"] obtain e where "read_lines float_of (pre @ line # rest) [] = Inl e" ..
  then show "\<exists>e. read_pdg_masswidth float_of (pre @ line # rest) = Inl e"
    by (simp add: read_pdg_masswidth_def)
  from one show "read_pdg_masswidth float_of (line # rest) = Inl ValueError"
    by (simp add: read_pdg_masswidth_def)
qed

lemma strip_mismatch: "strip example_row_mismatch = CHR ''5'' # tl (strip example_row_mismatch)"
  by (simp add: example_row_mismatch_def strip_def py_isspace_def)

lemma mismatch_columns:
  "py_split (slice 107 128 example_row_mismatch) = ''B*'' # ''0'' # []"
  "py_split (slice 0 32 example_row_mismatch) = [''513'', ''523'']"
  "py_split_on (CHR '','') ''0'' = [''0'']"
  by (simp_all add: example_row_mismatch_def slice_def py_split_def py_split_on_def py_isspace_def)

theorem comment_skipped_and_mismatch_fails_witness:
  "strip example_comment = CHR ''*'' # '' MASS AND WIDTH TABLE''
   \<and> read_pdg_masswidth example_float_of ([example_row_B] @ example_comment # [example_row_Bstar])
       = read_pdg_masswidth example_float_of ([example_row_B] @ [example_row_Bstar])
   \<and> strip example_row_mismatch = CHR ''5'' # tl (strip example_row_mismatch)
   \<and> CHR ''5'' \<noteq> CHR ''*''
   \<and> py_split (slice 107 128 example_row_mismatch) = ''B*'' # ''0'' # []
   \<and> length (py_split (slice 0 32 example_row_mismatch)) \<noteq> length (py_split_on (CHR '','') ''0'')
   \<and> read_pdg_masswidth example_float_of (example_row_mismatch # [example_row_B]) = Inl ValueError"
proof -
  have ne: "CHR ''5'' \<noteq> CHR ''*''" by simp
  have len: "length (py_split (slice 0 32 example_row_mismatch)) \<noteq> length (py_split_on (CHR '','') ''0'')"
    by (simp add: mismatch_columns)
  from comment_skipped_and_mismatch_fails [where line = example_comment
      and r = "'' MASS AND WIDTH TABLE''" and float_of = example_float_of
      and pre = "[example_row_B]" and rest = "[example_row_Bstar]"] strip_comment
  have a: "read_pdg_masswidth example_float_of ([example_row_B] @ example_comment # [example_row_Bstar])
       = read_pdg_masswidth example_float_of ([example_row_B] @ [example_row_Bstar])"
    by blast
  from comment_skipped_and_mismatch_fails [where line = example_row_mismatch
      and c = "CHR ''5''" and r = "tl (strip example_row_mismatch)" and float_of = example_float_of
      and nm = "''B*''" and cl = "''0''" and toks = "[]" and rest = "[example_row_B]"]
    strip_mismatch ne mismatch_columns(1) len
  have b: "read_pdg_masswidth example_float_of (example_row_mismatch # [example_row_B]) = Inl ValueError"
    by blast
  from strip_comment a strip_mismatch ne mismatch_columns(1) len b show ?thesis by blast
qed

subsection \<open>The PDG loader\<close>

lemma Parameter_new_registered: "n \<in> dom (Parameter_new reg n)"
  by (simp add: Parameter_new_def dom_def split: option.splits)

lemma Parameter_new_existing: "n \<in> dom reg \<Longrightarrow> Parameter_new reg n = reg"
  by (auto simp: Parameter_new_def split: option.splits)

lemma dom_set_tex: "dom (set_tex reg n t) = dom reg"
  by (auto simp: set_tex_def split: option.splits)

lemma dom_set_description: "dom (set_description reg n t) = dom reg"
  by (auto simp: set_description_def split: option.splits)

lemma dom_mass_metadata: "dom (mass_metadata reg n t) = dom reg"
  by (simp add: mass_metadata_def Let_def dom_set_tex dom_set_description)

lemma lookup_or_create_eq:
  "lookup_or_create reg c n =
     Inr (if n \<in> dom reg \<and> constrained c n
          then (reg, filter (\<lambda>g. n \<notin> set (fst g)) c)
          else (Parameter_new reg n, c))"
  by (auto simp: lookup_or_create_def Parameter_get_def remove_constraint_def
      Parameter_new_existing split: option.splits)

lemma not_constrained_filter: "\<not> constrained (filter (\<lambda>g. n \<notin> set (fst g)) c) n"
  by (auto simp: constrained_def)

lemma filter_not_constrained: "\<not> constrained c n \<Longrightarrow> filter (\<lambda>g. n \<notin> set (fst g)) c = c"
  by (auto simp: constrained_def filter_id_conv)

lemma add_constraint_fresh:
  "validate env d = None \<Longrightarrow> \<not> constrained c n \<Longrightarrow>
     add_constraint env c [n] d = Inr (c @ [([n], d)])"
  by (simp add: add_constraint_def)

lemma constraint_of_installed:
  "constraint_of (filter (\<lambda>g. n \<notin> set (fst g)) c @ [([n], d)]) n = Some ([n], d)"
  by (induction c) (auto simp: constraint_of_def)

lemma lookup_or_create_fresh:
  assumes "constrained c n \<longrightarrow> n \<in> dom reg"
  shows "\<exists>reg1. lookup_or_create reg c n = Inr (reg1, filter (\<lambda>g. n \<notin> set (fst g)) c)
           \<and> n \<in> dom reg1 \<and> reg1 = Parameter_new reg n"
  using assms
  by (auto simp: lookup_or_create_eq Parameter_new_registered Parameter_new_existing
      filter_not_constrained)

lemma lifetime_distribution_eq:
  "G_central \<noteq> 0 \<Longrightarrow>
     lifetime_distribution (G_central, G_right, G_left) =
       Inr (if \<bar>G_left\<bar> / G_central ^ 2 = G_right / G_central ^ 2
            then NormalDistribution (1 / G_central) (G_right / G_central ^ 2)
            else AsymmetricNormalDistribution (1 / G_central)
                   (G_right / G_central ^ 2) (\<bar>G_left\<bar> / G_central ^ 2))"
  by (simp add: lifetime_distribution_def py_div_def Let_def)


lemma lifetime_distribution_defined:
  "fst w \<noteq> 0 \<Longrightarrow> \<exists>d. lifetime_distribution w = Inr d"
  by (cases w) (simp add: lifetime_distribution_eq)















lemma translated_B0: "translated ''B0'' = ''B0''"
  by (simp add: translated_def pdg_translate_def)



subsection \<open>The loop of the PDG loader\<close>

lemma registered_constraintsD:
  "registered_constraints reg c \<Longrightarrow> constrained c n \<Longrightarrow> n \<in> dom reg"
  by (auto simp: registered_constraints_def constrained_def)

lemma Parameter_new_other: "n' \<noteq> n \<Longrightarrow> Parameter_new reg n n' = reg n'"
  by (simp add: Parameter_new_def split: option.splits)

lemma set_tex_other: "n' \<noteq> n \<Longrightarrow> set_tex reg n t n' = reg n'"
  by (simp add: set_tex_def split: option.splits)

lemma set_description_other: "n' \<noteq> n \<Longrightarrow> set_description reg n t n' = reg n'"
  by (simp add: set_description_def split: option.splits)

lemma mass_metadata_other: "n' \<noteq> n \<Longrightarrow> mass_metadata reg n t n' = reg n'"
  by (simp add: mass_metadata_def Let_def set_tex_other set_description_other)

lemma dom_Parameter_new: "dom (Parameter_new reg n) = insert n (dom reg)"
  by (auto simp: Parameter_new_def split: option.splits)

lemma find_filter_keep: "find Q xs = Some g \<Longrightarrow> P g \<Longrightarrow> find Q (filter P xs) = Some g"
  by (induction xs) (auto split: if_splits)

lemma find_append_Some: "find Q xs = Some g \<Longrightarrow> find Q (xs @ ys) = Some g"
  by (induction xs) (auto split: if_splits)

lemma constraint_of_overwrite_same: "constraint_of (overwrite c n d) n = Some ([n], d)"
  unfolding overwrite_def by (rule constraint_of_installed)

lemma constraint_of_overwrite_other:
  assumes "n' \<noteq> n" and "constraint_of c n' = Some ([n'], d')"
  shows "constraint_of (overwrite c n d) n' = Some ([n'], d')"
proof -
  from assms(2) have "find (\<lambda>g. n' \<in> set (fst g)) c = Some ([n'], d')"
    by (simp add: constraint_of_def)
  then have "find (\<lambda>g. n' \<in> set (fst g)) (filter (\<lambda>g. n \<notin> set (fst g)) c) = Some ([n'], d')"
    by (rule find_filter_keep) (use assms(1) in simp)
  then show ?thesis
    unfolding constraint_of_def overwrite_def by (rule find_append_Some)
qed

lemma constrained_overwrite:
  "constrained (overwrite c n d) n' \<longleftrightarrow>
     n' = n \<or> (\<exists>g \<in> set c. n' \<in> set (fst g) \<and> n \<notin> set (fst g))"
  by (fastforce simp: constrained_def overwrite_def)

lemma constrained_overwrite_other:
  assumes "n' \<noteq> n" and "constrained (overwrite c n d) n'"
  shows "constrained c n'"
proof -
  from assms have "\<exists>g \<in> set c. n' \<in> set (fst g) \<and> n \<notin> set (fst g)"
    by (simp add: constrained_overwrite)
  then show ?thesis unfolding constrained_def by blast
qed

lemma registered_constraints_overwrite:
  assumes "registered_constraints reg c" and "dom reg \<subseteq> dom reg'" and "n \<in> dom reg'"
  shows "registered_constraints reg' (overwrite c n d)"
  unfolding registered_constraints_def
proof (intro ballI)
  fix g m assume g: "g \<in> set (overwrite c n d)" and m: "m \<in> set (fst g)"
  from g have "g = ([n], d) \<or> g \<in> set c" by (auto simp: overwrite_def)
  then show "reg' m \<noteq> None"
  proof
    assume "g = ([n], d)"
    with m assms(3) show ?thesis by auto
  next
    assume "g \<in> set c"
    with m assms(1) have "m \<in> dom reg" by (auto simp: registered_constraints_def)
    with assms(2) show ?thesis by auto
  qed
qed

lemma lookup_or_create_registered:
  assumes "constrained c n \<longrightarrow> n \<in> dom reg"
  shows "lookup_or_create reg c n = Inr (Parameter_new reg n, filter (\<lambda>g. n \<notin> set (fst g)) c)"
proof -
  from assms have "\<exists>reg1. lookup_or_create reg c n = Inr (reg1, filter (\<lambda>g. n \<notin> set (fst g)) c)
           \<and> n \<in> dom reg1 \<and> reg1 = Parameter_new reg n"
    by (rule lookup_or_create_fresh)
  then show ?thesis by blast
qed

lemma add_constraint_after_removal:
  "add_constraint env (filter (\<lambda>g. n \<notin> set (fst g)) c) [n] d =
     (case validate env d of Some e \<Rightarrow> Inl e | None \<Rightarrow> Inr (overwrite c n d))"
  using not_constrained_filter [of n c]
  by (simp add: add_constraint_def overwrite_def split: option.splits)

lemma mass_step_registered:
  assumes "constrained c (mass_name particle) \<longrightarrow> mass_name particle \<in> dom reg"
  shows "mass_step env particles particle (reg, c) =
     (case map_of particles particle of
        None \<Rightarrow> ((mass_registry env particle reg, removed (mass_name particle) c), Some KeyError)
      | Some p \<Rightarrow>
          (case validate env (mass_distribution (pdg_mass p)) of
             Some e \<Rightarrow> ((mass_registry env particle reg, removed (mass_name particle) c), Some e)
           | None \<Rightarrow>
               ((mass_registry env particle reg,
                 overwrite c (mass_name particle) (mass_distribution (pdg_mass p))), None)))"
  using assms
  unfolding mass_name_def mass_registry_def removed_def
proof -
  assume a: "constrained c (''m_'' @ translated particle) \<longrightarrow> ''m_'' @ translated particle \<in> dom reg"
  show "mass_step env particles particle (reg, c) =
     (case map_of particles particle of
        None \<Rightarrow>
          ((mass_metadata (Parameter_new reg (''m_'' @ translated particle))
              (''m_'' @ translated particle) (to_tex env particle),
            filter (\<lambda>g. ''m_'' @ translated particle \<notin> set (fst g)) c), Some KeyError)
      | Some p \<Rightarrow>
          (case validate env (mass_distribution (pdg_mass p)) of
             Some e \<Rightarrow>
               ((mass_metadata (Parameter_new reg (''m_'' @ translated particle))
                   (''m_'' @ translated particle) (to_tex env particle),
                 filter (\<lambda>g. ''m_'' @ translated particle \<notin> set (fst g)) c), Some e)
           | None \<Rightarrow>
               ((mass_metadata (Parameter_new reg (''m_'' @ translated particle))
                   (''m_'' @ translated particle) (to_tex env particle),
                 overwrite c (''m_'' @ translated particle) (mass_distribution (pdg_mass p))),
                None)))"
    unfolding mass_step_def Let_def prod.case lookup_or_create_registered [OF a] sum.case
      add_constraint_after_removal
    by (simp split: option.splits)
qed

lemma lifetime_step_registered:
  assumes "constrained c (lifetime_name particle) \<longrightarrow> lifetime_name particle \<in> dom reg"
  shows "lifetime_step env p particle (reg, c) =
     (case lifetime_distribution (pdg_width p) of
        Inl e \<Rightarrow> ((lifetime_registry env particle reg, removed (lifetime_name particle) c), Some e)
      | Inr d \<Rightarrow>
          (case validate env d of
             Some e \<Rightarrow> ((lifetime_registry env particle reg, removed (lifetime_name particle) c), Some e)
           | None \<Rightarrow>
               ((lifetime_registry env particle reg, overwrite c (lifetime_name particle) d), None)))"
  using assms
  unfolding lifetime_name_def lifetime_registry_def removed_def
proof -
  assume a: "constrained c (''tau_'' @ translated particle) \<longrightarrow> ''tau_'' @ translated particle \<in> dom reg"
  show "lifetime_step env p particle (reg, c) =
     (case lifetime_distribution (pdg_width p) of
        Inl e \<Rightarrow>
          ((set_description
              (set_tex (Parameter_new reg (''tau_'' @ translated particle))
                 (''tau_'' @ translated particle) (''$'' @ bs @ ''tau_{'' @ to_tex env particle @ ''}$''))
              (''tau_'' @ translated particle) (''$'' @ to_tex env particle @ ''$ lifetime''),
            filter (\<lambda>g. ''tau_'' @ translated particle \<notin> set (fst g)) c), Some e)
      | Inr d \<Rightarrow>
          (case validate env d of
             Some e \<Rightarrow>
               ((set_description
                   (set_tex (Parameter_new reg (''tau_'' @ translated particle))
                      (''tau_'' @ translated particle)
                      (''$'' @ bs @ ''tau_{'' @ to_tex env particle @ ''}$''))
                   (''tau_'' @ translated particle) (''$'' @ to_tex env particle @ ''$ lifetime''),
                 filter (\<lambda>g. ''tau_'' @ translated particle \<notin> set (fst g)) c), Some e)
           | None \<Rightarrow>
               ((set_description
                   (set_tex (Parameter_new reg (''tau_'' @ translated particle))
                      (''tau_'' @ translated particle)
                      (''$'' @ bs @ ''tau_{'' @ to_tex env particle @ ''}$''))
                   (''tau_'' @ translated particle) (''$'' @ to_tex env particle @ ''$ lifetime''),
                 overwrite c (''tau_'' @ translated particle) d), None)))"
    unfolding lifetime_step_def Let_def prod.case lookup_or_create_registered [OF a] sum.case
      add_constraint_after_removal
    by (simp split: option.splits sum.splits)
qed

lemma mass_name_neq_lifetime_name: "mass_name x \<noteq> lifetime_name y"
  by (simp add: mass_name_def lifetime_name_def)

lemma mass_name_eq: "mass_name x = mass_name y \<longleftrightarrow> translated x = translated y"
  by (simp add: mass_name_def)

lemma lifetime_name_eq: "lifetime_name x = lifetime_name y \<longleftrightarrow> translated x = translated y"
  by (simp add: lifetime_name_def)

lemma dom_mass_registry: "dom (mass_registry env particle reg) = insert (mass_name particle) (dom reg)"
  by (simp add: mass_registry_def dom_mass_metadata dom_Parameter_new)

lemma dom_lifetime_registry:
  "dom (lifetime_registry env particle reg) = insert (lifetime_name particle) (dom reg)"
  by (simp add: lifetime_registry_def dom_set_description dom_set_tex dom_Parameter_new)

lemma mass_registry_other: "n \<noteq> mass_name particle \<Longrightarrow> mass_registry env particle reg n = reg n"
  by (simp add: mass_registry_def mass_metadata_other Parameter_new_other)

lemma lifetime_registry_other:
  "n \<noteq> lifetime_name particle \<Longrightarrow> lifetime_registry env particle reg n = reg n"
  by (simp add: lifetime_registry_def set_description_other set_tex_other Parameter_new_other)

text \<open>The loop body for a state whose constrained names are all registered.\<close>

lemma read_pdg_particle_registered:
  assumes inv: "registered_constraints reg c"
  shows "read_pdg_particle env particles particle (reg, c) =
     (case map_of particles particle of
        None \<Rightarrow> ((mass_registry env particle reg, removed (mass_name particle) c), Some KeyError)
      | Some p \<Rightarrow>
          (case validate env (mass_distribution (pdg_mass p)) of
             Some e \<Rightarrow> ((mass_registry env particle reg, removed (mass_name particle) c), Some e)
           | None \<Rightarrow>
               if fst (pdg_width p) = 0 then
                 ((mass_registry env particle reg,
                   overwrite c (mass_name particle) (mass_distribution (pdg_mass p))), None)
               else
                 (case lifetime_distribution (pdg_width p) of
                    Inl e \<Rightarrow>
                      ((lifetime_registry env particle (mass_registry env particle reg),
                        removed (lifetime_name particle)
                          (overwrite c (mass_name particle) (mass_distribution (pdg_mass p)))),
                       Some e)
                  | Inr d \<Rightarrow>
                      (case validate env d of
                         Some e \<Rightarrow>
                           ((lifetime_registry env particle (mass_registry env particle reg),
                             removed (lifetime_name particle)
                               (overwrite c (mass_name particle) (mass_distribution (pdg_mass p)))),
                            Some e)
                       | None \<Rightarrow>
                           ((lifetime_registry env particle (mass_registry env particle reg),
                             overwrite
                               (overwrite c (mass_name particle) (mass_distribution (pdg_mass p)))
                               (lifetime_name particle) d),
                            None)))))"
proof -
  have m: "constrained c (mass_name particle) \<longrightarrow> mass_name particle \<in> dom reg"
    using inv by (blast dest: registered_constraintsD)
  have t: "constrained (overwrite c (mass_name particle) d) (lifetime_name particle)
             \<longrightarrow> lifetime_name particle \<in> dom (mass_registry env particle reg)" for d
  proof
    assume "constrained (overwrite c (mass_name particle) d) (lifetime_name particle)"
    then have "constrained c (lifetime_name particle)"
      by (rule constrained_overwrite_other [rotated])
        (simp add: mass_name_neq_lifetime_name [symmetric])
    with inv have "lifetime_name particle \<in> dom reg" by (rule registered_constraintsD)
    then show "lifetime_name particle \<in> dom (mass_registry env particle reg)"
      by (simp add: dom_mass_registry)
  qed
  show ?thesis
    by (simp add: read_pdg_particle_def mass_step_registered [OF m] lifetime_step_registered [OF t]
        split: option.splits sum.splits)
qed

lemma unchanged_at_refl: "unchanged_at reg c reg c n"
  by (simp add: unchanged_at_def)

lemma unchanged_at_trans:
  "unchanged_at reg c reg1 c1 n \<Longrightarrow> unchanged_at reg1 c1 reg2 c2 n \<Longrightarrow> unchanged_at reg c reg2 c2 n"
  by (simp add: unchanged_at_def)

lemma unchanged_at_overwrite:
  assumes "n \<noteq> m" and "reg' n = reg n"
  shows "unchanged_at reg c reg' (overwrite c m d) n"
  using assms
  by (auto simp: unchanged_at_def dest: constrained_overwrite_other
      intro: constraint_of_overwrite_other)

lemma read_pdg_particle_facts:
  assumes inv: "registered_constraints reg c"
    and ok: "read_pdg_particle env particles particle (reg, c) = ((reg1, c1), None)"
  shows "registered_constraints reg1 c1 \<and> dom reg \<subseteq> dom reg1
    \<and> particle_installed particles reg c reg1 c1 particle
    \<and> (\<forall>n. n \<noteq> mass_name particle \<and> n \<noteq> lifetime_name particle \<longrightarrow>
           unchanged_at reg c reg1 c1 n)"
proof -
  let ?m = "mass_name particle" and ?t = "lifetime_name particle"
  note ch = read_pdg_particle_registered [OF inv, of env particles particle]
  from ok ch obtain p where p: "map_of particles particle = Some p"
    by (cases "map_of particles particle") auto
  from ok ch p have v: "validate env (mass_distribution (pdg_mass p)) = None"
    by (cases "validate env (mass_distribution (pdg_mass p))") auto
  let ?R1 = "mass_registry env particle reg"
  let ?C1 = "overwrite c ?m (mass_distribution (pdg_mass p))"
  have inv1: "registered_constraints ?R1 ?C1"
    by (rule registered_constraints_overwrite [OF inv]) (auto simp: dom_mass_registry)
  have m1: "constraint_of ?C1 ?m = Some ([?m], mass_distribution (pdg_mass p))"
    by (rule constraint_of_overwrite_same)
  have f1: "unchanged_at reg c ?R1 ?C1 n" if "n \<noteq> ?m" for n
    using that by (intro unchanged_at_overwrite) (simp_all add: mass_registry_other)
  show ?thesis
  proof (cases "fst (pdg_width p) = 0")
    case True
    with ok ch p v have eq: "reg1 = ?R1" "c1 = ?C1" by auto
    have "particle_installed particles reg c reg1 c1 particle"
      using f1 [of ?t] mass_name_neq_lifetime_name [of particle particle]
      by (simp add: particle_installed_def p True eq m1 dom_mass_registry unchanged_at_def)
    with inv1 f1 show ?thesis
      by (auto simp: eq dom_mass_registry)
  next
    case False
    from ok ch p v False obtain d where d: "lifetime_distribution (pdg_width p) = Inr d"
      by (cases "lifetime_distribution (pdg_width p)") auto
    from ok ch p v False d have v2: "validate env d = None"
      by (cases "validate env d") auto
    let ?R2 = "lifetime_registry env particle ?R1"
    let ?C2 = "overwrite ?C1 ?t d"
    from ok ch p v False d v2 have eq: "reg1 = ?R2" "c1 = ?C2" by auto
    have inv2: "registered_constraints ?R2 ?C2"
      by (rule registered_constraints_overwrite [OF inv1]) (auto simp: dom_lifetime_registry)
    have m2: "constraint_of ?C2 ?m = Some ([?m], mass_distribution (pdg_mass p))"
      by (rule constraint_of_overwrite_other [OF mass_name_neq_lifetime_name m1])
    have t2: "constraint_of ?C2 ?t = Some ([?t], d)"
      by (rule constraint_of_overwrite_same)
    have f2: "unchanged_at reg c ?R2 ?C2 n" if "n \<noteq> ?m" "n \<noteq> ?t" for n
    proof (rule unchanged_at_trans [OF f1 [OF that(1)]])
      show "unchanged_at ?R1 ?C1 ?R2 ?C2 n"
        using that(2) by (intro unchanged_at_overwrite) (simp_all add: lifetime_registry_other)
    qed
    have "particle_installed particles reg c reg1 c1 particle"
      by (simp add: particle_installed_def p False d eq m2 t2 dom_lifetime_registry
          dom_mass_registry)
    with inv2 f2 show ?thesis
      by (auto simp: eq dom_lifetime_registry dom_mass_registry)
  qed
qed

lemma read_pdg_loop_Cons_ok:
  assumes "read_pdg_loop env particles (a # rest) s = (s', None)"
  obtains s1 where "read_pdg_particle env particles a s = (s1, None)"
    and "read_pdg_loop env particles rest s1 = (s', None)"
  using assms by (auto split: prod.splits option.splits)

lemma read_pdg_loop_frame:
  assumes "registered_constraints reg c"
    and "read_pdg_loop env particles ps (reg, c) = ((reg', c'), None)"
  shows "registered_constraints reg' c' \<and> dom reg \<subseteq> dom reg'
    \<and> (\<forall>n. (\<forall>q \<in> set ps. n \<noteq> mass_name q \<and> n \<noteq> lifetime_name q) \<longrightarrow>
           unchanged_at reg c reg' c' n)"
  using assms
proof (induction ps arbitrary: reg c)
  case Nil
  then show ?case by (simp add: unchanged_at_refl)
next
  case (Cons a rest)
  from Cons.prems(2) obtain s1 where
    s1: "read_pdg_particle env particles a (reg, c) = (s1, None)"
      "read_pdg_loop env particles rest s1 = ((reg', c'), None)"
    by (rule read_pdg_loop_Cons_ok)
  obtain reg1 c1 where s1eq: "s1 = (reg1, c1)" by (cases s1)
  from read_pdg_particle_facts [OF Cons.prems(1) s1(1) [unfolded s1eq]]
  have st: "registered_constraints reg1 c1" "dom reg \<subseteq> dom reg1"
    "\<forall>n. n \<noteq> mass_name a \<and> n \<noteq> lifetime_name a \<longrightarrow> unchanged_at reg c reg1 c1 n"
    by blast+
  from Cons.IH [OF st(1) s1(2) [unfolded s1eq]]
  have ih: "registered_constraints reg' c'" "dom reg1 \<subseteq> dom reg'"
    "\<forall>n. (\<forall>q \<in> set rest. n \<noteq> mass_name q \<and> n \<noteq> lifetime_name q) \<longrightarrow>
           unchanged_at reg1 c1 reg' c' n"
    by blast+
  have "unchanged_at reg c reg' c' n"
    if "\<forall>q \<in> set (a # rest). n \<noteq> mass_name q \<and> n \<noteq> lifetime_name q" for n
    using that st(3) ih(3) by (auto intro: unchanged_at_trans)
  with ih(1) st(2) ih(2) show ?case by blast
qed

lemma particle_installed_later:
  assumes inst: "particle_installed particles reg c reg1 c1 particle"
    and dom: "dom reg1 \<subseteq> dom reg'"
    and m: "unchanged_at reg1 c1 reg' c' (mass_name particle)"
    and t: "unchanged_at reg1 c1 reg' c' (lifetime_name particle)"
  shows "particle_installed particles reg c reg' c' particle"
proof -
  from inst obtain p where p: "map_of particles particle = Some p"
    by (cases "map_of particles particle") (auto simp: particle_installed_def)
  show ?thesis
  proof (cases "fst (pdg_width p) = 0")
    case True
    with inst p dom m t show ?thesis
      by (auto simp: particle_installed_def unchanged_at_def)
  next
    case False
    with inst p obtain d where d: "lifetime_distribution (pdg_width p) = Inr d"
      by (cases "lifetime_distribution (pdg_width p)") (auto simp: particle_installed_def)
    with inst p dom m t False show ?thesis
      by (auto simp: particle_installed_def unchanged_at_def)
  qed
qed

lemma particle_installed_earlier:
  assumes inst: "particle_installed particles reg1 c1 reg' c' particle"
    and t: "unchanged_at reg c reg1 c1 (lifetime_name particle)"
  shows "particle_installed particles reg c reg' c' particle"
proof -
  from inst obtain p where p: "map_of particles particle = Some p"
    by (cases "map_of particles particle") (auto simp: particle_installed_def)
  show ?thesis
  proof (cases "fst (pdg_width p) = 0")
    case True
    with inst p t show ?thesis
      by (auto simp: particle_installed_def unchanged_at_def)
  next
    case False
    with inst p show ?thesis
      by (simp add: particle_installed_def)
  qed
qed

lemma read_pdg_loop_installs:
  assumes "registered_constraints reg c"
    and "distinct (map translated ps)"
    and "read_pdg_loop env particles ps (reg, c) = ((reg', c'), None)"
  shows "\<forall>particle \<in> set ps. particle_installed particles reg c reg' c' particle"
  using assms
proof (induction ps arbitrary: reg c)
  case Nil
  then show ?case by simp
next
  case (Cons a rest)
  from Cons.prems(3) obtain s1 where
    s1: "read_pdg_particle env particles a (reg, c) = (s1, None)"
      "read_pdg_loop env particles rest s1 = ((reg', c'), None)"
    by (rule read_pdg_loop_Cons_ok)
  obtain reg1 c1 where s1eq: "s1 = (reg1, c1)" by (cases s1)
  from read_pdg_particle_facts [OF Cons.prems(1) s1(1) [unfolded s1eq]]
  have st: "registered_constraints reg1 c1"
    "particle_installed particles reg c reg1 c1 a"
    "\<forall>n. n \<noteq> mass_name a \<and> n \<noteq> lifetime_name a \<longrightarrow> unchanged_at reg c reg1 c1 n"
    by blast+
  from read_pdg_loop_frame [OF st(1) s1(2) [unfolded s1eq]]
  have fr: "dom reg1 \<subseteq> dom reg'"
    "\<forall>n. (\<forall>q \<in> set rest. n \<noteq> mass_name q \<and> n \<noteq> lifetime_name q) \<longrightarrow>
           unchanged_at reg1 c1 reg' c' n"
    by blast+
  from Cons.prems(2) have dist: "distinct (map translated rest)"
    and notin: "translated a \<notin> translated ` set rest"
    by simp_all
  have new: "\<forall>q \<in> set rest. translated q \<noteq> translated a"
  proof
    fix q assume "q \<in> set rest"
    then have "translated q \<in> translated ` set rest" by (rule imageI)
    with notin show "translated q \<noteq> translated a" by metis
  qed
  have ih: "\<forall>particle \<in> set rest. particle_installed particles reg1 c1 reg' c' particle"
    by (rule Cons.IH [OF st(1) dist s1(2) [unfolded s1eq]])
  have head: "particle_installed particles reg c reg' c' a"
  proof (rule particle_installed_later [OF st(2) fr(1)])
    from new have "\<forall>q \<in> set rest. mass_name a \<noteq> mass_name q \<and> mass_name a \<noteq> lifetime_name q"
      by (auto simp: mass_name_eq mass_name_neq_lifetime_name)
    with fr(2) show "unchanged_at reg1 c1 reg' c' (mass_name a)" by blast
    from new have "\<forall>q \<in> set rest. lifetime_name a \<noteq> mass_name q \<and> lifetime_name a \<noteq> lifetime_name q"
      by (auto simp: lifetime_name_eq mass_name_neq_lifetime_name [symmetric])
    with fr(2) show "unchanged_at reg1 c1 reg' c' (lifetime_name a)" by blast
  qed
  have tail: "particle_installed particles reg c reg' c' q" if q: "q \<in> set rest" for q
  proof (rule particle_installed_earlier)
    from ih q show "particle_installed particles reg1 c1 reg' c' q" by blast
    from new q have "lifetime_name q \<noteq> mass_name a \<and> lifetime_name q \<noteq> lifetime_name a"
      by (auto simp: lifetime_name_eq mass_name_neq_lifetime_name [symmetric])
    with st(3) show "unchanged_at reg c reg1 c1 (lifetime_name q)" by blast
  qed
  from head tail show ?case by auto
qed

lemma distinct_pdg_include: "distinct (map translated pdg_include)"
  by (simp add: pdg_include_def translated_def pdg_translate_def)

lemma map_of_map_key:
  "map_of (map (\<lambda>n. (n, f n)) xs) x = (if x \<in> set xs then Some (f x) else None)"
  by (induction xs) auto

lemma read_pdg_particle_succeeds:
  assumes inv: "registered_constraints reg c"
    and p: "map_of particles particle = Some p"
    and v: "validate env (mass_distribution (pdg_mass p)) = None"
    and vt: "\<forall>d. lifetime_distribution (pdg_width p) = Inr d \<longrightarrow> validate env d = None"
  shows "\<exists>reg1 c1. read_pdg_particle env particles particle (reg, c) = ((reg1, c1), None)"
proof (cases "fst (pdg_width p) = 0")
  case True
  then show ?thesis
    by (simp add: read_pdg_particle_registered [OF inv] p v)
next
  case False
  then obtain d where d: "lifetime_distribution (pdg_width p) = Inr d"
    using lifetime_distribution_defined by blast
  with vt have "validate env d = None" by blast
  with False d show ?thesis
    by (simp add: read_pdg_particle_registered [OF inv] p v)
qed

lemma read_pdg_loop_succeeds:
  assumes "registered_constraints reg c"
    and "\<forall>particle \<in> set ps. \<exists>p. map_of particles particle = Some p
            \<and> validate env (mass_distribution (pdg_mass p)) = None
            \<and> (\<forall>d. lifetime_distribution (pdg_width p) = Inr d \<longrightarrow> validate env d = None)"
  shows "\<exists>reg' c'. read_pdg_loop env particles ps (reg, c) = ((reg', c'), None)"
  using assms
proof (induction ps arbitrary: reg c)
  case Nil
  then show ?case by simp
next
  case (Cons a rest)
  from Cons.prems(2) obtain p where p: "map_of particles a = Some p"
    "validate env (mass_distribution (pdg_mass p)) = None"
    "\<forall>d. lifetime_distribution (pdg_width p) = Inr d \<longrightarrow> validate env d = None"
    by auto
  from read_pdg_particle_succeeds [OF Cons.prems(1) p] obtain reg1 c1 where
    s: "read_pdg_particle env particles a (reg, c) = ((reg1, c1), None)" by blast
  from read_pdg_particle_facts [OF Cons.prems(1) s] have inv1: "registered_constraints reg1 c1"
    by blast
  from Cons.prems(2) have "\<forall>particle \<in> set rest. \<exists>p. map_of particles particle = Some p
            \<and> validate env (mass_distribution (pdg_mass p)) = None
            \<and> (\<forall>d. lifetime_distribution (pdg_width p) = Inr d \<longrightarrow> validate env d = None)"
    by simp
  from Cons.IH [OF inv1 this] s show ?case by simp
qed

text \<open>
  Claim C5, as amended. \<^verbatim>\<open>read_pdg\<close> parses the table and runs the loop over
  \<^verbatim>\<open>pdg_include\<close>. From a state in which every constrained name is registered, a run
  of the loop that returns leaves, for every included particle, the mass parameter
  registered with the new mass constraint as the constraint found under its name, and
  likewise the lifetime for a particle with a non-zero width: a constraint that was there
  before is overwritten. The \<^verbatim>\<open>try\<close> block removes the group of a parameter that exists
  and is constrained, and otherwise creates the parameter and leaves the constraints
  alone; so for a registered state the mass block ends with the old groups on the name
  removed and the new constraint appended, while for a name that is constrained but not
  registered the old constraint stays and the outcome is that of the conflict handling
  of \<^verbatim>\<open>add_constraint\<close>.
\<close>

theorem read_pdg_overwrites_registered:
  "read_pdg env float_of lines s =
     (case read_pdg_masswidth float_of lines of
        Inl e \<Rightarrow> (s, Some e)
      | Inr table \<Rightarrow> read_pdg_loop env table pdg_include s)
   \<and> (registered_constraints reg c
        \<and> read_pdg_loop env particles pdg_include (reg, c) = ((reg', c'), None) \<longrightarrow>
      (\<forall>particle \<in> set pdg_include. \<exists>p. map_of particles particle = Some p
          \<and> ''m_'' @ translated particle \<in> dom reg'
          \<and> constraint_of c' (''m_'' @ translated particle)
              = Some ([''m_'' @ translated particle], mass_distribution (pdg_mass p))
          \<and> (fst (pdg_width p) \<noteq> 0 \<longrightarrow>
               (\<exists>d. lifetime_distribution (pdg_width p) = Inr d
                  \<and> ''tau_'' @ translated particle \<in> dom reg'
                  \<and> constraint_of c' (''tau_'' @ translated particle)
                      = Some ([''tau_'' @ translated particle], d)))))
   \<and> lookup_or_create reg c n =
       Inr (if n \<in> dom reg \<and> constrained c n
            then (reg, filter (\<lambda>g. n \<notin> set (fst g)) c)
            else (Parameter_new reg n, c))
   \<and> (registered_constraints reg c \<and> map_of particles particle = Some q
        \<and> validate env (mass_distribution (pdg_mass q)) = None \<longrightarrow>
      mass_step env particles particle (reg, c) =
        ((mass_metadata (Parameter_new reg (''m_'' @ translated particle))
            (''m_'' @ translated particle) (to_tex env particle),
          filter (\<lambda>g. ''m_'' @ translated particle \<notin> set (fst g)) c
            @ [([''m_'' @ translated particle], mass_distribution (pdg_mass q))]), None))
   \<and> (''m_'' @ translated particle \<notin> dom reg \<and> constrained c (''m_'' @ translated particle)
        \<and> map_of particles particle = Some q
        \<and> validate env (mass_distribution (pdg_mass q)) = None \<longrightarrow>
      mass_step env particles particle (reg, c) =
        (case on_conflict env c [''m_'' @ translated particle] (mass_distribution (pdg_mass q)) of
           Inl e \<Rightarrow>
             ((mass_metadata (Parameter_new reg (''m_'' @ translated particle))
                 (''m_'' @ translated particle) (to_tex env particle), c), Some e)
         | Inr c2 \<Rightarrow>
             ((mass_metadata (Parameter_new reg (''m_'' @ translated particle))
                 (''m_'' @ translated particle) (to_tex env particle), c2), None))
      \<and> (on_conflict env c [''m_'' @ translated particle] (mass_distribution (pdg_mass q)) = Inl err \<longrightarrow>
           read_pdg_particle env particles particle (reg, c) =
             ((mass_metadata (Parameter_new reg (''m_'' @ translated particle))
                 (''m_'' @ translated particle) (to_tex env particle), c), Some err)))"
proof (intro conjI impI)
  show "read_pdg env float_of lines s =
     (case read_pdg_masswidth float_of lines of
        Inl e \<Rightarrow> (s, Some e)
      | Inr table \<Rightarrow> read_pdg_loop env table pdg_include s)"
    by (simp add: read_pdg_def)
next
  assume h: "registered_constraints reg c
        \<and> read_pdg_loop env particles pdg_include (reg, c) = ((reg', c'), None)"
  then have inst: "\<forall>particle \<in> set pdg_include. particle_installed particles reg c reg' c' particle"
    using read_pdg_loop_installs [OF _ distinct_pdg_include] by blast
  show "\<forall>particle \<in> set pdg_include. \<exists>p. map_of particles particle = Some p
          \<and> ''m_'' @ translated particle \<in> dom reg'
          \<and> constraint_of c' (''m_'' @ translated particle)
              = Some ([''m_'' @ translated particle], mass_distribution (pdg_mass p))
          \<and> (fst (pdg_width p) \<noteq> 0 \<longrightarrow>
               (\<exists>d. lifetime_distribution (pdg_width p) = Inr d
                  \<and> ''tau_'' @ translated particle \<in> dom reg'
                  \<and> constraint_of c' (''tau_'' @ translated particle)
                      = Some ([''tau_'' @ translated particle], d)))"
  proof
    fix particle assume "particle \<in> set pdg_include"
    with inst have pi: "particle_installed particles reg c reg' c' particle" by blast
    then obtain p where p: "map_of particles particle = Some p"
      by (cases "map_of particles particle") (auto simp: particle_installed_def)
    from pi p have m: "mass_name particle \<in> dom reg'"
      "constraint_of c' (mass_name particle)
         = Some ([mass_name particle], mass_distribution (pdg_mass p))"
      by (simp_all add: particle_installed_def)
    have t: "\<exists>d. lifetime_distribution (pdg_width p) = Inr d
                  \<and> lifetime_name particle \<in> dom reg'
                  \<and> constraint_of c' (lifetime_name particle) = Some ([lifetime_name particle], d)"
      if "fst (pdg_width p) \<noteq> 0"
      using pi p that
      by (cases "lifetime_distribution (pdg_width p)") (auto simp: particle_installed_def)
    from p m t show "\<exists>p. map_of particles particle = Some p
          \<and> ''m_'' @ translated particle \<in> dom reg'
          \<and> constraint_of c' (''m_'' @ translated particle)
              = Some ([''m_'' @ translated particle], mass_distribution (pdg_mass p))
          \<and> (fst (pdg_width p) \<noteq> 0 \<longrightarrow>
               (\<exists>d. lifetime_distribution (pdg_width p) = Inr d
                  \<and> ''tau_'' @ translated particle \<in> dom reg'
                  \<and> constraint_of c' (''tau_'' @ translated particle)
                      = Some ([''tau_'' @ translated particle], d)))"
      unfolding mass_name_def lifetime_name_def by blast
  qed
next
  show "lookup_or_create reg c n =
       Inr (if n \<in> dom reg \<and> constrained c n
            then (reg, filter (\<lambda>g. n \<notin> set (fst g)) c)
            else (Parameter_new reg n, c))"
    by (rule lookup_or_create_eq)
next
  assume h: "registered_constraints reg c \<and> map_of particles particle = Some q
        \<and> validate env (mass_distribution (pdg_mass q)) = None"
  then have m: "constrained c (mass_name particle) \<longrightarrow> mass_name particle \<in> dom reg"
    by (blast dest: registered_constraintsD)
  from h have "mass_step env particles particle (reg, c) =
     ((mass_registry env particle reg,
       overwrite c (mass_name particle) (mass_distribution (pdg_mass q))), None)"
    by (simp add: mass_step_registered [OF m])
  then show "mass_step env particles particle (reg, c) =
        ((mass_metadata (Parameter_new reg (''m_'' @ translated particle))
            (''m_'' @ translated particle) (to_tex env particle),
          filter (\<lambda>g. ''m_'' @ translated particle \<notin> set (fst g)) c
            @ [([''m_'' @ translated particle], mass_distribution (pdg_mass q))]), None)"
    unfolding mass_registry_def mass_name_def overwrite_def .
next
  assume h: "''m_'' @ translated particle \<notin> dom reg \<and> constrained c (''m_'' @ translated particle)
        \<and> map_of particles particle = Some q
        \<and> validate env (mass_distribution (pdg_mass q)) = None"
  let ?n = "''m_'' @ translated particle"
  from h have l: "lookup_or_create reg c ?n = Inr (Parameter_new reg ?n, c)"
    by (simp add: lookup_or_create_eq)
  from h have a: "add_constraint env c [?n] (mass_distribution (pdg_mass q))
      = on_conflict env c [?n] (mass_distribution (pdg_mass q))"
    by (simp add: add_constraint_def)
  from h have hq: "map_of particles particle = Some q" by blast
  show "mass_step env particles particle (reg, c) =
        (case on_conflict env c [?n] (mass_distribution (pdg_mass q)) of
           Inl e \<Rightarrow> ((mass_metadata (Parameter_new reg ?n) ?n (to_tex env particle), c), Some e)
         | Inr c2 \<Rightarrow> ((mass_metadata (Parameter_new reg ?n) ?n (to_tex env particle), c2), None))"
    unfolding mass_step_def Let_def prod.case l sum.case hq option.case a by simp
next
  assume h: "''m_'' @ translated particle \<notin> dom reg \<and> constrained c (''m_'' @ translated particle)
        \<and> map_of particles particle = Some q
        \<and> validate env (mass_distribution (pdg_mass q)) = None"
    and conflict: "on_conflict env c [''m_'' @ translated particle] (mass_distribution (pdg_mass q))
        = Inl err"
  let ?n = "''m_'' @ translated particle"
  from h have l: "lookup_or_create reg c ?n = Inr (Parameter_new reg ?n, c)"
    by (simp add: lookup_or_create_eq)
  from h conflict have a: "add_constraint env c [?n] (mass_distribution (pdg_mass q)) = Inl err"
    by (simp add: add_constraint_def)
  from h have hq: "map_of particles particle = Some q" by blast
  have "mass_step env particles particle (reg, c) =
        ((mass_metadata (Parameter_new reg ?n) ?n (to_tex env particle), c), Some err)"
    unfolding mass_step_def Let_def prod.case l sum.case hq option.case a by simp
  then show "read_pdg_particle env particles particle (reg, c) =
        ((mass_metadata (Parameter_new reg ?n) ?n (to_tex env particle), c), Some err)"
    by (simp add: read_pdg_particle_def)
qed

lemma example_included_lookup:
  "particle \<in> set pdg_include \<Longrightarrow>
     \<exists>p. map_of example_included particle = Some p
        \<and> validate example_env (mass_distribution (pdg_mass p)) = None
        \<and> (\<forall>d. lifetime_distribution (pdg_width p) = Inr d \<longrightarrow> validate example_env d = None)"
  unfolding example_included_def map_of_map_key by (simp add: example_env_def)

lemma example_pdg_state_registered:
  "registered_constraints (fst example_pdg_state) (snd example_pdg_state)"
  by (simp add: example_pdg_state_def registered_constraints_def)

lemma B0_included: "''B0'' \<in> set pdg_include"
  by (simp add: pdg_include_def)

lemma example_included_B0:
  "map_of example_included ''B0''
     = Some \<lparr>pdg_id = ''0'', pdg_mass = (1, 1 / 10, - 1 / 10), pdg_charge = ''0'',
             pdg_width = (1, 1 / 10, - 1 / 20), pdg_name = ''B0''\<rparr>"
  unfolding example_included_def map_of_map_key using B0_included by simp

theorem read_pdg_overwrites_registered_witness:
  "registered_constraints (fst example_pdg_state) (snd example_pdg_state)
   \<and> constraint_of (snd example_pdg_state) ''m_B0'' = Some ([''m_B0''], NormalDistribution 5 1)
   \<and> (\<exists>reg' c'. read_pdg_loop example_env example_included pdg_include
                   (fst example_pdg_state, snd example_pdg_state) = ((reg', c'), None)
        \<and> ''m_B0'' \<in> dom reg'
        \<and> constraint_of c' ''m_B0'' = Some ([''m_B0''], NormalDistribution 1 (1 / 10))
        \<and> ''tau_B0'' \<in> dom reg'
        \<and> constraint_of c' ''tau_B0''
            = Some ([''tau_B0''], AsymmetricNormalDistribution 1 (1 / 10) (1 / 20)))
   \<and> mass_step example_env example_included ''B0'' (fst example_pdg_state, snd example_pdg_state)
       = ((mass_metadata (Parameter_new (fst example_pdg_state) ''m_B0'') ''m_B0'' ''B0'',
           [([''m_B0''], NormalDistribution 1 (1 / 10))]), None)
   \<and> ''m_B0'' \<notin> dom (Map.empty :: registry)
   \<and> constrained [([''m_B0''], NormalDistribution 5 1)] ''m_B0''
   \<and> on_conflict example_env [([''m_B0''], NormalDistribution 5 1)] [''m_B0'']
         (NormalDistribution 1 (1 / 10)) = Inl ValueError
   \<and> mass_step example_env example_included ''B0''
         (Map.empty, [([''m_B0''], NormalDistribution 5 1)])
       = ((mass_metadata (Parameter_new Map.empty ''m_B0'') ''m_B0'' ''B0'',
           [([''m_B0''], NormalDistribution 5 1)]), Some ValueError)
   \<and> read_pdg_particle example_env example_included ''B0''
         (Map.empty, [([''m_B0''], NormalDistribution 5 1)])
       = ((mass_metadata (Parameter_new Map.empty ''m_B0'') ''m_B0'' ''B0'',
           [([''m_B0''], NormalDistribution 5 1)]), Some ValueError)"
proof -
  let ?q = "\<lparr>pdg_id = ''0'', pdg_mass = (1, 1 / 10, - 1 / 10), pdg_charge = ''0'',
             pdg_width = (1, 1 / 10, - 1 / 20), pdg_name = ''B0''\<rparr>"
  let ?old = "[([''m_B0''], NormalDistribution 5 1)]"
  have md: "mass_distribution (pdg_mass ?q) = NormalDistribution 1 (1 / 10)"
    by (simp add: mass_distribution_def)
  have md2: "mass_distribution (1, 1 / 10, - (1 / 10)) = NormalDistribution 1 (1 / 10)"
    by (simp add: mass_distribution_def)
  have val: "validate example_env (mass_distribution (pdg_mass ?q)) = None"
    by (simp add: example_env_def)
  from read_pdg_overwrites_registered [where reg = "fst example_pdg_state"
      and c = "snd example_pdg_state" and env = example_env and particles = example_included
      and particle = "''B0''" and q = ?q,
      THEN conjunct2, THEN conjunct2, THEN conjunct2, THEN conjunct1]
    example_pdg_state_registered example_included_B0 val
  have step1: "mass_step example_env example_included ''B0'' (fst example_pdg_state, snd example_pdg_state)
       = ((mass_metadata (Parameter_new (fst example_pdg_state) ''m_B0'') ''m_B0'' ''B0'',
           [([''m_B0''], NormalDistribution 1 (1 / 10))]), None)"
    by (simp add: md md2 translated_B0 example_pdg_state_def example_env_def)
  have unreg: "''m_'' @ translated ''B0'' \<notin> dom (Map.empty :: registry)" by simp
  have con: "constrained ?old (''m_'' @ translated ''B0'')"
    by (simp add: constrained_def translated_B0)
  have conf: "on_conflict example_env ?old [''m_'' @ translated ''B0'']
      (mass_distribution (pdg_mass ?q)) = Inl ValueError"
    by (simp add: example_env_def)
  from read_pdg_overwrites_registered [where reg = Map.empty and c = ?old and env = example_env
      and particles = example_included and particle = "''B0''" and q = ?q,
      THEN conjunct2, THEN conjunct2, THEN conjunct2, THEN conjunct2, THEN mp,
      OF conjI [OF unreg conjI [OF con conjI [OF example_included_B0 val]]], THEN conjunct1]
  have step2: "mass_step example_env example_included ''B0'' (Map.empty, ?old)
       = ((mass_metadata (Parameter_new Map.empty ''m_B0'') ''m_B0'' ''B0'', ?old), Some ValueError)"
    by (simp add: md md2 conf translated_B0 example_env_def)
  from read_pdg_overwrites_registered [where reg = Map.empty and c = ?old and env = example_env
      and particles = example_included and particle = "''B0''" and q = ?q and err = ValueError,
      THEN conjunct2, THEN conjunct2, THEN conjunct2, THEN conjunct2, THEN mp,
      OF conjI [OF unreg conjI [OF con conjI [OF example_included_B0 val]]], THEN conjunct2,
      THEN mp, OF conf]
  have step3: "read_pdg_particle example_env example_included ''B0'' (Map.empty, ?old)
       = ((mass_metadata (Parameter_new Map.empty ''m_B0'') ''m_B0'' ''B0'', ?old), Some ValueError)"
    by (simp add: translated_B0 example_env_def)
  have unreg': "''m_B0'' \<notin> dom (Map.empty :: registry)" by simp
  have con': "constrained ?old ''m_B0''" by (simp add: constrained_def)
  have conf': "on_conflict example_env ?old [''m_B0''] (NormalDistribution 1 (1 / 10)) = Inl ValueError"
    by (simp add: example_env_def)
  have old: "constraint_of (snd example_pdg_state) ''m_B0'' = Some ([''m_B0''], NormalDistribution 5 1)"
    by (simp add: example_pdg_state_def constraint_of_def)
  from read_pdg_loop_succeeds [OF example_pdg_state_registered, of pdg_include example_included
      example_env] example_included_lookup
  obtain reg' c' where run: "read_pdg_loop example_env example_included pdg_include
                   (fst example_pdg_state, snd example_pdg_state) = ((reg', c'), None)"
    by blast
  from read_pdg_overwrites_registered [where reg = "fst example_pdg_state"
      and c = "snd example_pdg_state" and env = example_env and particles = example_included
      and reg' = reg' and c' = c', THEN conjunct2, THEN conjunct1]
    example_pdg_state_registered run B0_included
  obtain p where p: "map_of example_included ''B0'' = Some p"
    "''m_'' @ translated ''B0'' \<in> dom reg'"
    "constraint_of c' (''m_'' @ translated ''B0'')
       = Some ([''m_'' @ translated ''B0''], mass_distribution (pdg_mass p))"
    "fst (pdg_width p) \<noteq> 0 \<longrightarrow>
       (\<exists>d. lifetime_distribution (pdg_width p) = Inr d
          \<and> ''tau_'' @ translated ''B0'' \<in> dom reg'
          \<and> constraint_of c' (''tau_'' @ translated ''B0'') = Some ([''tau_'' @ translated ''B0''], d))"
    by blast
  from p(1) example_included_B0
  have peq: "p = \<lparr>pdg_id = ''0'', pdg_mass = (1, 1 / 10, - 1 / 10), pdg_charge = ''0'',
             pdg_width = (1, 1 / 10, - 1 / 20), pdg_name = ''B0''\<rparr>"
    by simp
  have lt: "lifetime_distribution (1, 1 / 10, - (1 / 20))
              = Inr (AsymmetricNormalDistribution 1 (1 / 10) (1 / 20))"
    by (simp add: lifetime_distribution_eq)
  from p(2,3) have m: "''m_B0'' \<in> dom reg'"
    "constraint_of c' ''m_B0'' = Some ([''m_B0''], NormalDistribution 1 (1 / 10))"
    by (simp_all add: peq translated_B0 mass_distribution_def)
  from p(4) have t: "''tau_B0'' \<in> dom reg'"
    "constraint_of c' ''tau_B0''
       = Some ([''tau_B0''], AsymmetricNormalDistribution 1 (1 / 10) (1 / 20))"
    by (simp_all add: peq translated_B0 lt)
  from run m t have ex: "\<exists>reg' c'. read_pdg_loop example_env example_included pdg_include
                   (fst example_pdg_state, snd example_pdg_state) = ((reg', c'), None)
        \<and> ''m_B0'' \<in> dom reg'
        \<and> constraint_of c' ''m_B0'' = Some ([''m_B0''], NormalDistribution 1 (1 / 10))
        \<and> ''tau_B0'' \<in> dom reg'
        \<and> constraint_of c' ''tau_B0''
            = Some ([''tau_B0''], AsymmetricNormalDistribution 1 (1 / 10) (1 / 20))"
    by blast
  show ?thesis
    using example_pdg_state_registered old ex step1 unreg' con' conf' step2 step3
    by (intro conjI)
qed

lemma translated_Bs: "translated ''B(s)'' = ''Bs''"
  by (simp add: translated_def pdg_translate_def)

lemma pdg_include_head: "\<exists>rest. pdg_include = ''B(s)'' # rest"
  by (simp add: pdg_include_def)

lemma example_included_Bs:
  "map_of example_included ''B(s)''
     = Some \<lparr>pdg_id = ''0'', pdg_mass = (1, 1 / 10, - 1 / 10), pdg_charge = ''0'',
             pdg_width = (1, 1 / 10, - 1 / 20), pdg_name = ''B(s)''\<rparr>"
  unfolding example_included_def map_of_map_key by (simp add: pdg_include_def)

lemma example_unregistered_step:
  "read_pdg_particle example_env example_included ''B(s)''
       (Map.empty, [([''m_Bs''], NormalDistribution 5 1)])
     = ((mass_metadata (Parameter_new Map.empty ''m_Bs'') ''m_Bs'' (to_tex example_env ''B(s)''),
         [([''m_Bs''], NormalDistribution 5 1)]), Some ValueError)"
  by (simp add: read_pdg_particle_def mass_step_def lookup_or_create_def Parameter_get_def
      translated_Bs example_included_Bs add_constraint_def example_env_def constrained_def
      Let_def)

text \<open>
  Claim C5, as stated, fails for a name that is constrained but not registered: with a
  constraint on \<^verbatim>\<open>m_Bs\<close>, no parameter \<^verbatim>\<open>m_Bs\<close> and an \<^verbatim>\<open>add_constraint\<close> that
  rejects a name already constrained, the loop over \<^verbatim>\<open>pdg_include\<close> raises at its first
  particle \<^verbatim>\<open>B(s)\<close> and the old constraint is still the one in place.
\<close>

theorem read_pdg_unregistered_not_overwritten:
  "Map.empty ''m_Bs'' = (None :: parameter option)
   \<and> constraint_of [([''m_Bs''], NormalDistribution 5 1)] ''m_Bs''
       = Some ([''m_Bs''], NormalDistribution 5 1)
   \<and> snd (read_pdg_loop example_env example_included pdg_include
            (Map.empty, [([''m_Bs''], NormalDistribution 5 1)])) = Some ValueError
   \<and> snd (fst (read_pdg_loop example_env example_included pdg_include
            (Map.empty, [([''m_Bs''], NormalDistribution 5 1)])))
       = [([''m_Bs''], NormalDistribution 5 1)]"
proof -
  from pdg_include_head obtain rest where r: "pdg_include = ''B(s)'' # rest" by blast
  show ?thesis
    unfolding r by (simp add: example_unregistered_step constraint_of_def)
qed










lemma example_width_run:
  "read_pdg_particle example_env example_width_table ''B0'' (Map.empty, []) =
     ((lifetime_registry example_env ''B0'' (mass_registry example_env ''B0'' Map.empty),
       [([''m_B0''], NormalDistribution 5 (1 / 10)),
        ([''tau_B0''], AsymmetricNormalDistribution 1 (1 / 10) (1 / 20))]), None)"
proof -
  have inv: "registered_constraints Map.empty []"
    by (simp add: registered_constraints_def)
  have lt: "lifetime_distribution (1, 1 / 10, - (1 / 20))
              = Inr (AsymmetricNormalDistribution 1 (1 / 10) (1 / 20))"
    by (simp add: lifetime_distribution_eq)
  show ?thesis
    by (simp add: read_pdg_particle_registered [OF inv] example_width_table_def example_env_def
        mass_distribution_def lt overwrite_def mass_name_def lifetime_name_def translated_B0)
qed

text \<open>
  Claim C4. For a particle whose width is \<open>(1.0, 0.1, -0.05)\<close> the loop body installs the
  lifetime constraint with central value 1.0, right error 0.1 and left error 0.05: lines
  249 and 250 compute \<^verbatim>\<open>tau_left\<close> from \<^verbatim>\<open>G_left\<close> and \<^verbatim>\<open>tau_right\<close> from \<^verbatim>\<open>G_right\<close>.
  Under the inversion \<open>tau = 1 / Gamma\<close> named in the comment of line 248 the sides swap:
  the width's left error gives the lifetime's right error, \<open>1 / 0.95 - 1 = 1 / 19\<close>, and
  the width's right error gives its left error, \<open>1 - 1 / 1.1 = 1 / 11\<close>, the values near
  0.05 and 0.1 of the claim. The code does not swap them.
\<close>

theorem read_pdg_lifetime_sides_not_swapped:
  "snd (read_pdg_particle example_env example_width_table ''B0'' (Map.empty, [])) = None
   \<and> snd (fst (read_pdg_particle example_env example_width_table ''B0'' (Map.empty, [])))
       = [([''m_B0''], NormalDistribution 5 (1 / 10)),
          ([''tau_B0''], AsymmetricNormalDistribution 1 (1 / 10) (1 / 20))]
   \<and> right_deviation (AsymmetricNormalDistribution 1 (1 / 10) (1 / 20)) = 1 / 10
   \<and> left_deviation (AsymmetricNormalDistribution 1 (1 / 10) (1 / 20)) = 1 / 20
   \<and> 1 / (1 - 1 / 20) - 1 = (1 / 19 :: real)
   \<and> 1 - 1 / (1 + 1 / 10) = (1 / 11 :: real)"
  by (simp add: example_width_run)

end
